theory Spec2Isabelle
  imports Complex_Main "HOL-Library.Log_Nat"
begin

section \<open>Values of the host language\<close>

text \<open>
  The routes are TypeScript over untyped rows (\<^verbatim>\<open>any\<close>) of the external store. A
  nullable column is an \<open>option\<close> (\<open>None\<close> is \<^verbatim>\<open>null\<close>), an id and a timestamp are
  strings, a latency is an integer. The counters are \<open>nat\<close> and the latencies \<open>int\<close>. A
  double is the rational it stands for: the percentage is computed with the roundings of
  binary64 (below). The sum and the mean of the latencies are taken exactly; the doubles
  give the same average as long as the latencies of a code are not negative and their sum
  stays below \<open>2 ^ 52\<close> milliseconds.
\<close>

text \<open>Truthiness, as \<^verbatim>\<open>if (x)\<close>, \<^verbatim>\<open>x || y\<close> and \<^verbatim>\<open>x ? a : b\<close> test it: \<^verbatim>\<open>null\<close>, the
  empty string and the number 0 are falsy.\<close>

definition truthy_string :: "string option \<Rightarrow> bool" where
  "truthy_string x = (case x of None \<Rightarrow> False | Some s \<Rightarrow> s \<noteq> [])"

definition truthy_number :: "int option \<Rightarrow> bool" where
  "truthy_number x = (case x of None \<Rightarrow> False | Some n \<Rightarrow> n \<noteq> 0)"

text \<open>\<^verbatim>\<open>a || b\<close> on nullable strings.\<close>

definition or_string :: "string option \<Rightarrow> string option \<Rightarrow> string option" where
  "or_string a b = (if truthy_string a then a else b)"

text \<open>\<^verbatim>\<open>Math.round\<close>: the nearest integer, a tie going up.\<close>

definition Math_round :: "rat \<Rightarrow> int" where
  "Math_round x = \<lfloor>x + 1 / 2\<rfloor>"

subsection \<open>Arithmetic on doubles\<close>

text \<open>
  The nearest integer with a tie going to the even one, and \<open>\<lfloor>log\<^sub>2 x\<rfloor>\<close> of a positive
  rational, from the bit lengths of its numerator and denominator.
\<close>

definition round_half_even :: "rat \<Rightarrow> int" where
  "round_half_even y =
     (let f = \<lfloor>y\<rfloor>; r = y - of_int f
      in if r < 1 / 2 then f else if 1 / 2 < r then f + 1 else if even f then f else f + 1)"

definition exponent :: "rat \<Rightarrow> int" where
  "exponent x =
     (let (p, q) = quotient_of x; d = bitlen p - bitlen q
      in if 2 powi d \<le> x then d else d - 1)"

text \<open>
  The double nearest to a rational: 53 significant bits, a tie going to the even
  significand. The exponent is not bounded; the values of the route are far from the
  largest and the smallest double.
\<close>

definition binary64 :: "rat \<Rightarrow> rat" where
  "binary64 x =
     (let e = exponent \<bar>x\<bar> - 52
      in sgn x * of_int (round_half_even (\<bar>x\<bar> / 2 powi e)) * 2 powi e)"

text \<open>\<^verbatim>\<open>a / b\<close> and \<^verbatim>\<open>a * b\<close> on doubles: the exact result, rounded once. The route divides
  by a positive count and by 10 only.\<close>

definition fdiv :: "rat \<Rightarrow> rat \<Rightarrow> rat" where
  "fdiv a b = binary64 (a / b)"

definition fmul :: "rat \<Rightarrow> rat \<Rightarrow> rat" where
  "fmul a b = binary64 (a * b)"

definition fadd :: "rat \<Rightarrow> rat \<Rightarrow> rat" where
  "fadd a b = binary64 (a + b)"

text \<open>
  \<^verbatim>\<open>Math.round(ts.reduce((a, b) => a + b, 0) / ts.length)\<close> on doubles. The final record
  below takes the mean exactly; the two give the same integer for latencies that are not
  negative and add up to less than \<open>2 ^ 52\<close> (lemma \<open>average_on_doubles_exact\<close>).
\<close>

definition average_on_doubles :: "int list \<Rightarrow> int" where
  "average_on_doubles ts =
     Math_round (fdiv (foldl fadd 0 (map of_int ts)) (of_nat (length ts)))"

text \<open>
  \<^verbatim>\<open>new Date(a) > new Date(b)\<close>. The constructor never throws: an unparseable string gives
  an invalid date, whose time value is NaN, and every comparison with NaN is false. The
  parser itself is a parameter \<open>newDate\<close> of the aggregation, giving the time value in
  milliseconds, \<open>None\<close> for an invalid date.
\<close>

definition date_gt :: "int option \<Rightarrow> int option \<Rightarrow> bool" where
  "date_gt a b = (case a of None \<Rightarrow> False
                  | Some x \<Rightarrow> (case b of None \<Rightarrow> False | Some y \<Rightarrow> y < x))"

subsection \<open>The built-in Map\<close>

text \<open>
  A \<^verbatim>\<open>Map\<close> keeps its entries in insertion order; \<^verbatim>\<open>set\<close> on a key that is present
  replaces the value where it stands, on a new key appends the entry. An object stored in
  the map and mutated through \<^verbatim>\<open>get\<close> is modelled by setting the mutated value again.
\<close>

type_synonym ('k, 'v) js_map = "('k \<times> 'v) list"

definition Map_has :: "('k, 'v) js_map \<Rightarrow> 'k \<Rightarrow> bool" where
  "Map_has m k = (k \<in> set (map fst m))"

definition Map_get :: "('k, 'v) js_map \<Rightarrow> 'k \<Rightarrow> 'v option" where
  "Map_get m k = map_of m k"

fun Map_set :: "('k, 'v) js_map \<Rightarrow> 'k \<Rightarrow> 'v \<Rightarrow> ('k, 'v) js_map" where
  "Map_set [] k v = [(k, v)]"
| "Map_set ((k', v') # m) k v =
     (if k' = k then (k, v) # m else (k', v') # Map_set m k v)"

definition Map_values :: "('k, 'v) js_map \<Rightarrow> 'v list" where
  "Map_values m = map snd m"

text \<open>\<^verbatim>\<open>new Map(entries)\<close>: the entries are set one after the other.\<close>

definition Map_new :: "('k \<times> 'v) list \<Rightarrow> ('k, 'v) js_map" where
  "Map_new entries = foldl (\<lambda>m (k, v). Map_set m k v) [] entries"

text \<open>\<^verbatim>\<open>[...new Set(xs)]\<close>: the first occurrence of each element, in order.\<close>

definition uniq :: "'a list \<Rightarrow> 'a list" where
  "uniq xs = rev (remdups (rev xs))"

section \<open>Practice-history mastery (\<^verbatim>\<open>GET /practice-history/:cleverId/mastery\<close>)\<close>

text \<open>A row of \<^verbatim>\<open>practice_history\<close>, with the columns the route selects and uses.\<close>

record practice =
  correct :: bool
  response_time_ms :: "int option"
  created_at :: string
  module_id :: "string option"
  topic_id :: "string option"
  question_id :: "string option"
  question_type :: string
  reference_question_id :: "string option"

text \<open>
  A row of \<^verbatim>\<open>questions_pool\<close> as the store returns it; \<open>id'\<close> is its column \<^verbatim>\<open>id\<close>. The
  route declares no type for \<^verbatim>\<open>ny_standards_codes\<close>: the column is null, an array of codes, or
  a value that is not an array, for which a string stands.
\<close>

datatype codes_column = Codes_null | Codes_array "string list" | Codes_text string

record question_row =
  id' :: string
  ny_standards_codes :: codes_column
  module_id :: "string option"
  topic_id :: "string option"

text \<open>The row with \<^verbatim>\<open>ny_standards_codes\<close> an array or null, as the data model has it.\<close>

record question =
  id' :: string
  ny_standards_codes :: "string list option"
  module_id :: "string option"
  topic_id :: "string option"

text \<open>The accumulator object stored in \<^verbatim>\<open>masteryMap\<close>.\<close>

record mastery =
  standard_code :: string
  module_id :: "string option"
  topic_id :: "string option"
  total_attempts :: nat
  correct_count :: nat
  incorrect_count :: nat
  response_times :: "int list"
  last_attempted :: string

text \<open>An element of \<^verbatim>\<open>masteryData\<close>, the response's \<^verbatim>\<open>data\<close>.\<close>

record mastery_data =
  standard_code :: string
  module_id :: "string option"
  topic_id :: "string option"
  total_attempts :: nat
  correct_count :: nat
  incorrect_count :: nat
  mastery_percentage :: rat
  avg_response_time_ms :: "int option"
  last_attempted :: string

text \<open>The object a code gets on first sight (\<^verbatim>\<open>masteryMap.set(standardCode, {...})\<close>).\<close>

definition new_mastery :: "practice \<Rightarrow> question \<Rightarrow> string \<Rightarrow> mastery" where
  "new_mastery practice question standardCode =
     \<lparr> mastery.standard_code = standardCode,
       mastery.module_id = or_string (practice.module_id practice) (question.module_id question),
       mastery.topic_id = or_string (practice.topic_id practice) (question.topic_id question),
       mastery.total_attempts = 0,
       mastery.correct_count = 0,
       mastery.incorrect_count = 0,
       mastery.response_times = [],
       mastery.last_attempted = practice.created_at practice \<rparr>"

text \<open>The updates of the accumulator for one attempt (the statements after
  \<^verbatim>\<open>const mastery = masteryMap.get(standardCode)\<close>).\<close>

definition record_attempt :: "(string \<Rightarrow> int option) \<Rightarrow> practice \<Rightarrow> mastery \<Rightarrow> mastery" where
  "record_attempt newDate practice mastery =
     mastery
     \<lparr> mastery.total_attempts := mastery.total_attempts mastery + 1,
       mastery.correct_count :=
         (if correct practice then mastery.correct_count mastery + 1
          else mastery.correct_count mastery),
       mastery.incorrect_count :=
         (if correct practice then mastery.incorrect_count mastery
          else mastery.incorrect_count mastery + 1),
       mastery.response_times :=
         (if truthy_number (response_time_ms practice)
          then mastery.response_times mastery @ [the (response_time_ms practice)]
          else mastery.response_times mastery),
       mastery.last_attempted :=
         (if date_gt (newDate (practice.created_at practice)) (newDate (mastery.last_attempted mastery))
          then practice.created_at practice
          else mastery.last_attempted mastery) \<rparr>"

text \<open>The body of \<^verbatim>\<open>question.ny_standards_codes.forEach\<close>. After the first statement the
  code is a key of the map, so \<^verbatim>\<open>get\<close> returns an object.\<close>

definition forEach_standardCode ::
  "(string \<Rightarrow> int option) \<Rightarrow> practice \<Rightarrow> question \<Rightarrow> (string, mastery) js_map \<Rightarrow> string
     \<Rightarrow> (string, mastery) js_map" where
  "forEach_standardCode newDate practice question masteryMap standardCode =
     (let masteryMap1 =
            (if \<not> Map_has masteryMap standardCode
             then Map_set masteryMap standardCode (new_mastery practice question standardCode)
             else masteryMap)
      in case Map_get masteryMap1 standardCode of
           None \<Rightarrow> masteryMap1
         | Some mastery \<Rightarrow>
             Map_set masteryMap1 standardCode (record_attempt newDate practice mastery))"

text \<open>\<^verbatim>\<open>questionId\<close> and \<^verbatim>\<open>question\<close> of one attempt.\<close>

definition questionId :: "practice \<Rightarrow> string option" where
  "questionId practice =
     (if question_type practice = ''saved'' then question_id practice
      else reference_question_id practice)"

definition question_of :: "(string, 'q) js_map \<Rightarrow> practice \<Rightarrow> 'q option" where
  "question_of questionsMap practice =
     (if truthy_string (questionId practice)
      then Map_get questionsMap (the (questionId practice))
      else None)"

text \<open>The body of \<^verbatim>\<open>practiceHistory.forEach\<close>.\<close>

definition forEach_practice ::
  "(string \<Rightarrow> int option) \<Rightarrow> (string, question) js_map \<Rightarrow> (string, mastery) js_map \<Rightarrow> practice
     \<Rightarrow> (string, mastery) js_map" where
  "forEach_practice newDate questionsMap masteryMap practice =
     (case question_of questionsMap practice of
        None \<Rightarrow> masteryMap
      | Some question \<Rightarrow>
          (case ny_standards_codes question of
             None \<Rightarrow> masteryMap
           | Some codes \<Rightarrow>
               foldl (forEach_standardCode newDate practice question) masteryMap codes))"

text \<open>
  The same body on rows as the store returns them. \<^verbatim>\<open>question.ny_standards_codes.forEach\<close>
  on a truthy value that is not an array throws a \<^verbatim>\<open>TypeError\<close> (the value has no
  \<^verbatim>\<open>forEach\<close>); no other statement of the loop can throw. \<^verbatim>\<open>practiceHistory.forEach\<close> ends at
  the first attempt whose body throws.
\<close>

datatype exception = TypeError

definition typed_question :: "question_row \<Rightarrow> question" where
  "typed_question row =
     \<lparr> question.id' = question_row.id' row,
       ny_standards_codes =
         (case question_row.ny_standards_codes row of
            Codes_array codes \<Rightarrow> Some codes | Codes_null \<Rightarrow> None | Codes_text s \<Rightarrow> None),
       question.module_id = question_row.module_id row,
       question.topic_id = question_row.topic_id row \<rparr>"

definition forEach_practice_try ::
  "(string \<Rightarrow> int option) \<Rightarrow> (string, question_row) js_map \<Rightarrow> (string, mastery) js_map
     \<Rightarrow> practice \<Rightarrow> exception + (string, mastery) js_map" where
  "forEach_practice_try newDate questionsMap masteryMap practice =
     (case question_of questionsMap practice of
        None \<Rightarrow> Inr masteryMap
      | Some question \<Rightarrow>
          (case question_row.ny_standards_codes question of
             Codes_null \<Rightarrow> Inr masteryMap
           | Codes_text s \<Rightarrow> if s = [] then Inr masteryMap else Inl TypeError
           | Codes_array codes \<Rightarrow>
               Inr (foldl (forEach_standardCode newDate practice (typed_question question))
                      masteryMap codes)))"

fun forEach_try :: "('s \<Rightarrow> 'a \<Rightarrow> exception + 's) \<Rightarrow> 's \<Rightarrow> 'a list \<Rightarrow> exception + 's" where
  "forEach_try body s [] = Inr s"
| "forEach_try body s (x # xs) =
     (case body s x of Inl e \<Rightarrow> Inl e | Inr s' \<Rightarrow> forEach_try body s' xs)"

text \<open>The final \<^verbatim>\<open>map\<close> over the accumulators.\<close>

definition mastery_record :: "mastery \<Rightarrow> mastery_data" where
  "mastery_record mastery =
     \<lparr> mastery_data.standard_code = mastery.standard_code mastery,
       mastery_data.module_id = mastery.module_id mastery,
       mastery_data.topic_id = mastery.topic_id mastery,
       mastery_data.total_attempts = mastery.total_attempts mastery,
       mastery_data.correct_count = mastery.correct_count mastery,
       mastery_data.incorrect_count = mastery.incorrect_count mastery,
       mastery_data.mastery_percentage =
         (if mastery.total_attempts mastery > 0
          then fdiv (of_int (Math_round
                 (fmul (fmul (fdiv (of_nat (mastery.correct_count mastery))
                                (of_nat (mastery.total_attempts mastery)))
                          100)
                    10)))
                 10
          else 0),
       mastery_data.avg_response_time_ms =
         (if length (mastery.response_times mastery) > 0
          then Some (Math_round
                 (of_int (foldl (+) 0 (mastery.response_times mastery))
                    / of_nat (length (mastery.response_times mastery))))
          else None),
       mastery_data.last_attempted = mastery.last_attempted mastery \<rparr>"

text \<open>
  The aggregation of the route, from the fetched \<^verbatim>\<open>practice_history\<close> rows and the \<^verbatim>\<open>data\<close>
  of the \<^verbatim>\<open>questions_pool\<close> response (\<open>None\<close> is \<^verbatim>\<open>null\<close>) to the response's
  \<^verbatim>\<open>data\<close>. The route answers an empty history with \<^verbatim>\<open>[]\<close> before the loop, which is
  what the loop gives on it.
\<close>

definition questionsMap :: "question list option \<Rightarrow> (string, question) js_map" where
  "questionsMap questions =
     Map_new (case questions of None \<Rightarrow> [] | Some qs \<Rightarrow> map (\<lambda>q. (id' q, q)) qs)"

definition masteryMap ::
  "(string \<Rightarrow> int option) \<Rightarrow> practice list \<Rightarrow> question list option \<Rightarrow> (string, mastery) js_map" where
  "masteryMap newDate practiceHistory questions =
     foldl (forEach_practice newDate (questionsMap questions)) [] practiceHistory"

definition masteryData ::
  "(string \<Rightarrow> int option) \<Rightarrow> practice list \<Rightarrow> question list option \<Rightarrow> mastery_data list" where
  "masteryData newDate practiceHistory questions =
     map mastery_record (Map_values (masteryMap newDate practiceHistory questions))"

subsection \<open>The route\<close>

text \<open>
  The statements of the route's \<^verbatim>\<open>try\<close> block from the lookup map to \<^verbatim>\<open>masteryData\<close>, on
  rows as the store returns them: \<open>Inl\<close> is the exception that reaches the \<^verbatim>\<open>catch\<close>.
\<close>

definition rowsMap :: "question_row list option \<Rightarrow> (string, question_row) js_map" where
  "rowsMap questions =
     Map_new (case questions of None \<Rightarrow> []
              | Some qs \<Rightarrow> map (\<lambda>q. (question_row.id' q, q)) qs)"

definition masteryData_try ::
  "(string \<Rightarrow> int option) \<Rightarrow> practice list \<Rightarrow> question_row list option
     \<Rightarrow> exception + mastery_data list" where
  "masteryData_try newDate practiceHistory questions =
     (case forEach_try (forEach_practice_try newDate (rowsMap questions)) [] practiceHistory of
        Inl e \<Rightarrow> Inl e
      | Inr mmap \<Rightarrow> Inr (map mastery_record (Map_values mmap)))"

text \<open>The ids the route asks the catalog for.\<close>

definition savedQuestionIds :: "practice list \<Rightarrow> string list" where
  "savedQuestionIds practiceHistory =
     map (\<lambda>p. the (question_id p))
       (filter (\<lambda>p. question_type p = ''saved'' \<and> truthy_string (question_id p)) practiceHistory)"

definition referenceQuestionIds :: "practice list \<Rightarrow> string list" where
  "referenceQuestionIds practiceHistory =
     map (\<lambda>p. the (reference_question_id p))
       (filter (\<lambda>p. question_type p = ''on_the_fly'' \<and> truthy_string (reference_question_id p))
          practiceHistory)"

definition allQuestionIds :: "practice list \<Rightarrow> string list" where
  "allQuestionIds practiceHistory =
     uniq (savedQuestionIds practiceHistory @ referenceQuestionIds practiceHistory)"

text \<open>
  A response of the store, and the answer of a route: the data, or a status with the
  \<^verbatim>\<open>error\<close> of the body.
\<close>

record 'a response =
  data :: "'a option"
  error :: "string option"

datatype 'a reply = Success 'a | Failure nat string

text \<open>
  The route from the fetched history on. \<open>questions_in ids\<close> is the response of
  \<^verbatim>\<open>from('questions_pool').select(...).in('id', ids)\<close>.
\<close>

definition practice_history_mastery ::
  "(string list \<Rightarrow> question_row list response) \<Rightarrow> (string \<Rightarrow> int option) \<Rightarrow> practice list
     \<Rightarrow> mastery_data list reply" where
  "practice_history_mastery questions_in newDate practiceHistory =
     (if practiceHistory = [] then Success []
      else
        let questionsResponse = questions_in (allQuestionIds practiceHistory)
        in if error questionsResponse \<noteq> None
           then Failure 500 ''Failed to fetch question data''
           else (case masteryData_try newDate practiceHistory (data questionsResponse) of
                   Inl e \<Rightarrow> Failure 500 ''Internal server error''
                 | Inr records \<Rightarrow> Success records))"

subsection \<open>What an attempt contributes\<close>

text \<open>The codes the loop body runs for one attempt: the array of its question, and none
  when the attempt is skipped.\<close>

definition codes_of :: "(string, question) js_map \<Rightarrow> practice \<Rightarrow> string list" where
  "codes_of qmap practice =
     (case question_of qmap practice of
        None \<Rightarrow> []
      | Some question \<Rightarrow>
          (case ny_standards_codes question of None \<Rightarrow> [] | Some codes \<Rightarrow> codes))"

text \<open>The attempts that are recorded for a code, in the order of the loop; an attempt stands
  in the list once for every occurrence of the code in its question's array.\<close>

definition contributions ::
  "(string, question) js_map \<Rightarrow> string \<Rightarrow> practice list \<Rightarrow> practice list" where
  "contributions qmap standardCode practiceHistory =
     concat (map (\<lambda>p. replicate (count_list (codes_of qmap p) standardCode) p)
               practiceHistory)"

text \<open>The body of the loop throws for an attempt: its question's \<^verbatim>\<open>ny_standards_codes\<close> is
  truthy and not an array.\<close>

definition raises :: "(string, question_row) js_map \<Rightarrow> practice \<Rightarrow> bool" where
  "raises qmap practice =
     (case question_of qmap practice of
        None \<Rightarrow> False
      | Some question \<Rightarrow>
          (case question_row.ny_standards_codes question of
             Codes_text s \<Rightarrow> s \<noteq> [] | Codes_array codes \<Rightarrow> False | Codes_null \<Rightarrow> False))"

text \<open>The latencies that a list of attempts pushes to \<^verbatim>\<open>response_times\<close>.\<close>

definition latencies :: "practice list \<Rightarrow> int list" where
  "latencies ps =
     map (\<lambda>p. the (response_time_ms p)) (filter (\<lambda>p. truthy_number (response_time_ms p)) ps)"

text \<open>An accumulator after a list of attempts has been recorded in it.\<close>

definition record_attempts :: "(string \<Rightarrow> int option) \<Rightarrow> mastery \<Rightarrow> practice list \<Rightarrow> mastery" where
  "record_attempts newDate mastery ps = foldl (\<lambda>m p. record_attempt newDate p m) mastery ps"

section \<open>Standards with their module and topic\<close>

text \<open>Rows of \<^verbatim>\<open>standards\<close>, \<^verbatim>\<open>modules\<close> and \<^verbatim>\<open>topics\<close> with the selected columns, and the
  object the routes answer with.\<close>

record standard_row =
  id' :: string
  standard_code :: string
  description :: string
  module_id :: "string option"
  topic_id :: "string option"
  created_at :: string

record module_row =
  id' :: string
  name :: string
  description :: string
  display_order :: int

record topic_row =
  id' :: string
  name :: string

record enriched_standard =
  id' :: string
  standard_code :: string
  description :: string
  created_at :: string
  module :: "module_row option"
  topic :: "topic_row option"

text \<open>\<^verbatim>\<open>map.get(key) || null\<close> for a nullable key: rows are objects, hence truthy, and
  \<^verbatim>\<open>null\<close> is the key of no row.\<close>

definition get_or_null :: "(string, 'v) js_map \<Rightarrow> string option \<Rightarrow> 'v option" where
  "get_or_null m key = (case key of None \<Rightarrow> None | Some k \<Rightarrow> Map_get m k)"

text \<open>
  \<^verbatim>\<open>enrichStandardsWithRelations\<close>. The two queries of the external store are parameters:
  \<open>modules_in ids\<close> is the \<^verbatim>\<open>data\<close> of
  \<^verbatim>\<open>from('modules').select(...).in('id', ids)\<close>, \<open>None\<close> when the response carries no data.
\<close>

definition enrichStandardsWithRelations ::
  "(string option list \<Rightarrow> module_row list option) \<Rightarrow> (string option list \<Rightarrow> topic_row list option)
     \<Rightarrow> standard_row list \<Rightarrow> enriched_standard list" where
  "enrichStandardsWithRelations modules_in topics_in standards =
     (let moduleIds = uniq (map standard_row.module_id standards);
          topicIds = uniq (map standard_row.topic_id standards);
          modulesResponse = modules_in moduleIds;
          topicsResponse = topics_in topicIds;
          modulesMap = Map_new (case modulesResponse of None \<Rightarrow> []
                                | Some rows \<Rightarrow> map (\<lambda>m. (module_row.id' m, m)) rows);
          topicsMap = Map_new (case topicsResponse of None \<Rightarrow> []
                               | Some rows \<Rightarrow> map (\<lambda>t. (topic_row.id' t, t)) rows)
      in map (\<lambda>standard.
                \<lparr> enriched_standard.id' = standard_row.id' standard,
                  enriched_standard.standard_code = standard_row.standard_code standard,
                  enriched_standard.description = standard_row.description standard,
                  enriched_standard.created_at = standard_row.created_at standard,
                  enriched_standard.module = get_or_null modulesMap (standard_row.module_id standard),
                  enriched_standard.topic = get_or_null topicsMap (standard_row.topic_id standard) \<rparr>)
           standards)"

text \<open>
  \<^verbatim>\<open>enrichedStandard\<close> of \<^verbatim>\<open>GET /standards/:id\<close>. \<open>module_single id\<close> is the \<^verbatim>\<open>data\<close> of
  \<^verbatim>\<open>from('modules').select(...).eq('id', id).single()\<close>, \<open>None\<close> when no single row matches.
\<close>

definition enrichedStandard ::
  "(string option \<Rightarrow> module_row option) \<Rightarrow> (string option \<Rightarrow> topic_row option)
     \<Rightarrow> standard_row \<Rightarrow> enriched_standard" where
  "enrichedStandard module_single topic_single standard =
     (let moduleResponse = module_single (standard_row.module_id standard);
          topicResponse = topic_single (standard_row.topic_id standard)
      in \<lparr> enriched_standard.id' = standard_row.id' standard,
           enriched_standard.standard_code = standard_row.standard_code standard,
           enriched_standard.description = standard_row.description standard,
           enriched_standard.created_at = standard_row.created_at standard,
           enriched_standard.module = moduleResponse,
           enriched_standard.topic = topicResponse \<rparr>)"

text \<open>A response of the store matches no row with the id \<open>i\<close>: it carries no data, or
  no row of its data has that id.\<close>

definition no_match :: "('r \<Rightarrow> string) \<Rightarrow> 'r list option \<Rightarrow> string option \<Rightarrow> bool" where
  "no_match key response i =
     (case response of None \<Rightarrow> True | Some rows \<Rightarrow> i \<notin> set (map (\<lambda>r. Some (key r)) rows))"

section \<open>Server configuration (\<^verbatim>\<open>index.ts\<close>)\<close>

text \<open>The environment is a partial map from variable names to strings. \<^verbatim>\<open>PORT\<close> is the
  variable's string or the number 3000.\<close>

record server_config =
  PORT :: "string + nat"
  API_PREFIX :: string
  cors_origin :: string
  cors_credentials :: bool

definition server_config :: "(string \<Rightarrow> string option) \<Rightarrow> server_config" where
  "server_config env =
     \<lparr> PORT = (if truthy_string (env ''PORT'') then Inl (the (env ''PORT'')) else Inr 3000),
       API_PREFIX =
         (if truthy_string (env ''API_PREFIX'') then the (env ''API_PREFIX'') else ''/api/v1''),
       cors_origin = ''http://localhost:8080'',
       cors_credentials = True \<rparr>"

section \<open>Example data\<close>

text \<open>A saved-question attempt, a catalog entry, and the time values of two well-formed
  timestamps (every other string is an invalid date).\<close>

definition saved_attempt :: "bool \<Rightarrow> int option \<Rightarrow> string \<Rightarrow> string \<Rightarrow> practice" where
  "saved_attempt ok ms ts qid =
     \<lparr> correct = ok, response_time_ms = ms, practice.created_at = ts,
       practice.module_id = None, practice.topic_id = None, question_id = Some qid,
       question_type = ''saved'', reference_question_id = None \<rparr>"

definition pool_question :: "string \<Rightarrow> string list option \<Rightarrow> question" where
  "pool_question qid codes =
     \<lparr> question.id' = qid, ny_standards_codes = codes,
       question.module_id = Some ''m1'', question.topic_id = Some ''t1'' \<rparr>"

definition march :: "string \<Rightarrow> int option" where
  "march s = map_of [(''2024-03-01T10:00:00Z'', 1709287200000),
                     (''2024-03-02T10:00:00Z'', 1709373600000)] s"

text \<open>A row of the store, and a store that holds one table of rows and answers a query
  with the rows whose id is asked for.\<close>

definition pool_row :: "string \<Rightarrow> codes_column \<Rightarrow> question_row" where
  "pool_row qid codes =
     \<lparr> question_row.id' = qid, question_row.ny_standards_codes = codes,
       question_row.module_id = Some ''m1'', question_row.topic_id = Some ''t1'' \<rparr>"

definition store :: "question_row list \<Rightarrow> string list \<Rightarrow> question_row list response" where
  "store rows ids =
     \<lparr> data = Some (filter (\<lambda>q. question_row.id' q \<in> set ids) rows), error = None \<rparr>"

text \<open>An environment that sets the port and the prefix, and names another origin under
  the names such a variable may have.\<close>

definition deployment_env :: "string \<Rightarrow> string option" where
  "deployment_env =
     map_of [(''PORT'', ''4000''), (''API_PREFIX'', ''/hub''),
             (''CORS_ORIGIN'', ''https://dashboard.example.org''),
             (''CORS_ALLOWED_ORIGIN'', ''https://dashboard.example.org''),
             (''ALLOWED_ORIGIN'', ''https://dashboard.example.org''),
             (''ALLOWED_ORIGINS'', ''https://dashboard.example.org''),
             (''ORIGIN'', ''https://dashboard.example.org'')]"

section \<open>Lemmas: the map and the two loops\<close>

lemma Map_get_set: "Map_get (Map_set m k v) k' = (if k' = k then Some v else Map_get m k')"
  by (induction m) (auto simp: Map_get_def)

lemma keys_Map_set:
  "map fst (Map_set m k v) = (if k \<in> set (map fst m) then map fst m else map fst m @ [k])"
  by (induction m) (auto simp: rev_image_eqI)

lemma Map_has_get: "Map_has m k \<longleftrightarrow> Map_get m k \<noteq> None"
  by (simp add: Map_has_def Map_get_def map_of_eq_None_iff)

lemma get_forEach_standardCode:
  "Map_get (forEach_standardCode nd p q mm c') c =
     (if c = c'
      then Some (record_attempt nd p (case Map_get mm c of None \<Rightarrow> new_mastery p q c | Some m \<Rightarrow> m))
      else Map_get mm c)"
  by (auto simp: forEach_standardCode_def Let_def Map_get_set Map_has_get split: option.splits)

lemma keys_forEach_standardCode:
  "map fst (forEach_standardCode nd p q mm c) =
     (if c \<in> set (map fst mm) then map fst mm else map fst mm @ [c])"
  by (auto simp: forEach_standardCode_def Let_def Map_get_set keys_Map_set Map_has_def split: option.splits)

lemma get_fold_codes_other:
  "c \<notin> set codes \<Longrightarrow> Map_get (foldl (forEach_standardCode nd p q) mm codes) c = Map_get mm c"
  by (induction codes arbitrary: mm) (auto simp: get_forEach_standardCode)

lemma get_fold_codes:
  "Map_get (foldl (forEach_standardCode nd p q) mm codes) c =
     (if c \<in> set codes
      then Some (record_attempts nd
                  (case Map_get mm c of None \<Rightarrow> new_mastery p q c | Some m \<Rightarrow> m)
                  (replicate (count_list codes c) p))
      else Map_get mm c)"
proof (induction codes arbitrary: mm)
  case Nil
  then show ?case by simp
next
  case (Cons a codes)
  show ?case
  proof (cases "a = c")
    case True
    then show ?thesis
      by (simp add: Cons.IH get_forEach_standardCode record_attempts_def count_list_0_iff)
  next
    case False
    then show ?thesis
      by (simp add: Cons.IH get_forEach_standardCode)
  qed
qed

lemma get_forEach_practice:
  "Map_get (forEach_practice nd qm mm p) c =
     (if c \<in> set (codes_of qm p)
      then Some (record_attempts nd
                  (case Map_get mm c of None \<Rightarrow> new_mastery p (the (question_of qm p)) c | Some m \<Rightarrow> m)
                  (replicate (count_list (codes_of qm p) c) p))
      else Map_get mm c)"
  by (simp add: forEach_practice_def codes_of_def get_fold_codes split: option.splits)

lemma keyset_forEach_standardCode:
  "fst ` set (forEach_standardCode nd p q mm c) = insert c (fst ` set mm)"
proof -
  have "set (map fst (forEach_standardCode nd p q mm c)) = insert c (set (map fst mm))"
    unfolding keys_forEach_standardCode by auto
  then show ?thesis by simp
qed

lemma keyset_fold_codes:
  "fst ` set (foldl (forEach_standardCode nd p q) mm codes) = fst ` set mm \<union> set codes"
  by (induction codes arbitrary: mm) (simp_all add: keyset_forEach_standardCode)

lemma distinct_fold_codes:
  "distinct (map fst mm) \<Longrightarrow> distinct (map fst (foldl (forEach_standardCode nd p q) mm codes))"
  by (induction codes arbitrary: mm) (simp_all add: keys_forEach_standardCode)

lemma keyset_forEach_practice:
  "fst ` set (forEach_practice nd qm mm p) = fst ` set mm \<union> set (codes_of qm p)"
  by (simp add: forEach_practice_def codes_of_def keyset_fold_codes split: option.splits)

lemma distinct_forEach_practice:
  "distinct (map fst mm) \<Longrightarrow> distinct (map fst (forEach_practice nd qm mm p))"
  by (simp add: forEach_practice_def distinct_fold_codes split: option.splits)

lemma keyset_fold_practice:
  "fst ` set (foldl (forEach_practice nd qm) mm ps) =
     fst ` set mm \<union> (\<Union>p\<in>set ps. set (codes_of qm p))"
  by (induction ps arbitrary: mm) (simp_all add: keyset_forEach_practice Un_assoc)

lemma distinct_fold_practice:
  "distinct (map fst mm) \<Longrightarrow> distinct (map fst (foldl (forEach_practice nd qm) mm ps))"
  by (induction ps arbitrary: mm) (simp_all add: distinct_forEach_practice)

lemma record_attempts_append:
  "record_attempts nd m (xs @ ys) = record_attempts nd (record_attempts nd m xs) ys"
  by (simp add: record_attempts_def)

lemma contributions_Nil [simp]: "contributions qm c [] = []"
  by (simp add: contributions_def)

lemma contributions_Cons:
  "contributions qm c (p # ps) = replicate (count_list (codes_of qm p) c) p @ contributions qm c ps"
  by (simp add: contributions_def)

lemma set_contributions:
  "set (contributions qm c ps) = {p \<in> set ps. c \<in> set (codes_of qm p)}"
proof (induction ps)
  case Nil
  show ?case by simp
next
  case (Cons a ps)
  have "set (replicate (count_list (codes_of qm a) c) a) =
      (if c \<in> set (codes_of qm a) then {a} else {})"
    by (simp add: set_replicate_conv_if count_list_0_iff)
  then have "set (contributions qm c (a # ps)) =
      (if c \<in> set (codes_of qm a) then {a} else {}) \<union> {p \<in> set ps. c \<in> set (codes_of qm p)}"
    by (simp only: contributions_Cons set_append Cons.IH)
  also have "\<dots> = {p \<in> set (a # ps). c \<in> set (codes_of qm p)}"
    by (cases "c \<in> set (codes_of qm a)") (simp_all only: set_simps if_True if_False, blast+)
  finally show ?case .
qed

lemma get_fold_practice_Some:
  "Map_get mm c = Some m \<Longrightarrow>
   Map_get (foldl (forEach_practice nd qm) mm ps) c =
     Some (record_attempts nd m (contributions qm c ps))"
proof (induction ps arbitrary: mm m)
  case Nil
  then show ?case by (simp add: record_attempts_def)
next
  case (Cons p ps)
  show ?case
  proof (cases "c \<in> set (codes_of qm p)")
    case True
    then have "Map_get (forEach_practice nd qm mm p) c =
        Some (record_attempts nd m (replicate (count_list (codes_of qm p) c) p))"
      using Cons.prems by (simp add: get_forEach_practice)
    from Cons.IH [OF this] show ?thesis
      by (simp add: contributions_Cons record_attempts_append)
  next
    case False
    then have "Map_get (forEach_practice nd qm mm p) c = Some m"
      using Cons.prems by (simp add: get_forEach_practice)
    from Cons.IH [OF this] False show ?thesis
      by (simp add: contributions_Cons count_list_0_iff)
  qed
qed

lemma get_fold_practice_None:
  "Map_get mm c = None \<Longrightarrow>
   Map_get (foldl (forEach_practice nd qm) mm ps) c =
     (case contributions qm c ps of
        [] \<Rightarrow> None
      | p # rest \<Rightarrow>
          Some (record_attempts nd (new_mastery p (the (question_of qm p)) c) (p # rest)))"
proof (induction ps arbitrary: mm)
  case Nil
  then show ?case by simp
next
  case (Cons p ps)
  show ?case
  proof (cases "c \<in> set (codes_of qm p)")
    case True
    then obtain n where n: "count_list (codes_of qm p) c = Suc n"
      by (metis count_list_0_iff not0_implies_Suc)
    have "Map_get (forEach_practice nd qm mm p) c =
        Some (record_attempts nd (new_mastery p (the (question_of qm p)) c) (replicate (Suc n) p))"
      using Cons.prems True n by (simp add: get_forEach_practice)
    from get_fold_practice_Some [OF this] show ?thesis
      by (simp add: contributions_Cons n record_attempts_def)
  next
    case False
    then have "Map_get (forEach_practice nd qm mm p) c = None"
      using Cons.prems by (simp add: get_forEach_practice)
    from Cons.IH [OF this] False show ?thesis
      by (simp add: contributions_Cons count_list_0_iff)
  qed
qed

lemma record_attempts_Nil [simp]: "record_attempts nd m [] = m"
  by (simp add: record_attempts_def)

lemma record_attempts_snoc:
  "record_attempts nd m (ps @ [p]) = record_attempt nd p (record_attempts nd m ps)"
  by (simp add: record_attempts_def)

lemma standard_code_record_attempts:
  "mastery.standard_code (record_attempts nd m ps) = mastery.standard_code m"
  by (induction ps rule: rev_induct) (simp_all add: record_attempts_snoc record_attempt_def)

lemma total_record_attempts:
  "mastery.total_attempts (record_attempts nd m ps) = mastery.total_attempts m + length ps"
  by (induction ps rule: rev_induct) (simp_all add: record_attempts_snoc record_attempt_def)

lemma correct_record_attempts:
  "mastery.correct_count (record_attempts nd m ps) =
     mastery.correct_count m + length (filter correct ps)"
  by (induction ps rule: rev_induct) (simp_all add: record_attempts_snoc record_attempt_def)

lemma incorrect_record_attempts:
  "mastery.incorrect_count (record_attempts nd m ps) =
     mastery.incorrect_count m + length (filter (\<lambda>p. \<not> correct p) ps)"
  by (induction ps rule: rev_induct) (simp_all add: record_attempts_snoc record_attempt_def)

lemma response_times_record_attempts:
  "mastery.response_times (record_attempts nd m ps) = mastery.response_times m @ latencies ps"
  by (induction ps rule: rev_induct)
     (simp_all add: record_attempts_snoc record_attempt_def latencies_def)

lemma last_attempted_record_attempts_in:
  "mastery.last_attempted (record_attempts nd m ps)
     \<in> insert (mastery.last_attempted m) (practice.created_at ` set ps)"
  by (induction ps rule: rev_induct) (auto simp: record_attempts_snoc record_attempt_def)

lemma last_attempted_record_attempts_max:
  assumes "nd (mastery.last_attempted m) = Some t0"
    and "\<forall>p\<in>set ps. nd (practice.created_at p) \<noteq> None"
  shows "\<exists>t. nd (mastery.last_attempted (record_attempts nd m ps)) = Some t \<and> t0 \<le> t \<and>
           (\<forall>p\<in>set ps. \<forall>u. nd (practice.created_at p) = Some u \<longrightarrow> u \<le> t)"
  using assms(2)
proof (induction ps rule: rev_induct)
  case Nil
  show ?case using assms(1) by simp
next
  case (snoc p ps)
  then obtain t where t: "nd (mastery.last_attempted (record_attempts nd m ps)) = Some t"
      "t0 \<le> t" "\<forall>p\<in>set ps. \<forall>u. nd (practice.created_at p) = Some u \<longrightarrow> u \<le> t"
    by auto
  from snoc.prems obtain u where u: "nd (practice.created_at p) = Some u" by auto
  show ?case
  proof (cases "t < u")
    case True
    then have "mastery.last_attempted (record_attempts nd m (ps @ [p])) = practice.created_at p"
      by (simp add: record_attempts_snoc record_attempt_def date_gt_def t u)
    with True t u show ?thesis by fastforce
  next
    case False
    then have "mastery.last_attempted (record_attempts nd m (ps @ [p])) =
        mastery.last_attempted (record_attempts nd m ps)"
      by (simp add: record_attempts_snoc record_attempt_def date_gt_def t u)
    with False t u show ?thesis by fastforce
  qed
qed

lemma get_masteryMap:
  "Map_get (masteryMap nd ps qs) c =
     (case contributions (questionsMap qs) c ps of
        [] \<Rightarrow> None
      | p # rest \<Rightarrow>
          Some (record_attempts nd
                 (new_mastery p (the (question_of (questionsMap qs) p)) c) (p # rest)))"
  unfolding masteryMap_def by (rule get_fold_practice_None) (simp add: Map_get_def)

lemma distinct_masteryMap: "distinct (map fst (masteryMap nd ps qs))"
  unfolding masteryMap_def by (rule distinct_fold_practice) simp

lemma keyset_masteryMap:
  "fst ` set (masteryMap nd ps qs) = (\<Union>p\<in>set ps. set (codes_of (questionsMap qs) p))"
  unfolding masteryMap_def by (simp add: keyset_fold_practice)

lemma entry_masteryMap:
  "(c, m) \<in> set (masteryMap nd ps qs) \<longleftrightarrow> Map_get (masteryMap nd ps qs) c = Some m"
  by (simp add: Map_get_def distinct_masteryMap)

lemma standard_code_masteryMap:
  assumes "Map_get (masteryMap nd ps qs) c = Some m"
  shows "mastery.standard_code m = c"
  using assms
  by (auto simp: get_masteryMap standard_code_record_attempts new_mastery_def split: list.splits)

lemma in_masteryData:
  "r \<in> set (masteryData nd ps qs) \<longleftrightarrow>
     (\<exists>m. Map_get (masteryMap nd ps qs) (mastery_data.standard_code r) = Some m \<and>
          r = mastery_record m)"
proof
  assume "r \<in> set (masteryData nd ps qs)"
  then obtain c m where cm: "(c, m) \<in> set (masteryMap nd ps qs)" "r = mastery_record m"
    by (auto simp: masteryData_def Map_values_def)
  then have g: "Map_get (masteryMap nd ps qs) c = Some m"
    by (simp add: entry_masteryMap)
  then have "mastery.standard_code m = c" by (rule standard_code_masteryMap)
  then have "mastery_data.standard_code r = c" using cm(2) by (simp add: mastery_record_def)
  with g cm(2) show "\<exists>m. Map_get (masteryMap nd ps qs) (mastery_data.standard_code r) = Some m \<and>
          r = mastery_record m" by blast
next
  assume "\<exists>m. Map_get (masteryMap nd ps qs) (mastery_data.standard_code r) = Some m \<and>
          r = mastery_record m"
  then obtain m where m: "(mastery_data.standard_code r, m) \<in> set (masteryMap nd ps qs)"
      "r = mastery_record m"
    by (auto simp: entry_masteryMap)
  then have "m \<in> set (Map_values (masteryMap nd ps qs))"
    unfolding Map_values_def by force
  with m(2) show "r \<in> set (masteryData nd ps qs)"
    by (simp add: masteryData_def)
qed

text \<open>Every record of the output is the accumulator of its code: the object created at the
  code's first contribution, updated once for every contribution.\<close>

lemma masteryData_record:
  assumes "r \<in> set (masteryData nd ps qs)"
  obtains c p rest q where
    "mastery_data.standard_code r = c"
    "contributions (questionsMap qs) c ps = p # rest"
    "r = mastery_record (record_attempts nd (new_mastery p q c) (p # rest))"
proof -
  define c where "c = mastery_data.standard_code r"
  from assms obtain m where
    m: "Map_get (masteryMap nd ps qs) c = Some m" and r: "r = mastery_record m"
    unfolding c_def by (auto simp: in_masteryData)
  from m obtain p rest where
    c: "contributions (questionsMap qs) c ps = p # rest" and
    e: "m = record_attempts nd (new_mastery p (the (question_of (questionsMap qs) p)) c) (p # rest)"
    by (auto simp: get_masteryMap split: list.splits)
  from r e have "r = mastery_record
      (record_attempts nd (new_mastery p (the (question_of (questionsMap qs) p)) c) (p # rest))"
    by simp
  with c c_def that show thesis by metis
qed

subsection \<open>Rounding to a double\<close>

lemma round_half_even_error: "\<bar>of_int (round_half_even y) - y\<bar> \<le> 1 / 2"
proof -
  define f where "f = \<lfloor>y\<rfloor>"
  have "of_int f \<le> y" "y < of_int f + 1"
    unfolding f_def by linarith+
  then show ?thesis
    unfolding round_half_even_def Let_def f_def [symmetric]
    by (auto simp: abs_if)
qed

lemma round_half_even_nonneg: "0 \<le> y \<Longrightarrow> 0 \<le> round_half_even y"
  by (auto simp: round_half_even_def Let_def)

lemma exponent_bounds:
  assumes "0 < x"
  shows "2 powi exponent x \<le> x" and "x < 2 powi (exponent x + 1)"
proof -
  obtain p q where pq: "quotient_of x = (p, q)" by (cases "quotient_of x")
  then have q: "0 < q" and x: "x = of_int p / of_int q"
    by (simp_all add: quotient_of_denom_pos quotient_of_div)
  with assms have p: "0 < p"
    by (simp add: zero_less_divide_iff)
  define bp bq where "bp = bitlen p" and "bq = bitlen q"
  have bp: "1 \<le> bp" and bq: "1 \<le> bq"
    using p q bitlen_eq_zero_iff [of p] bitlen_eq_zero_iff [of q] bitlen_nonneg [of p]
      bitlen_nonneg [of q]
    unfolding bp_def bq_def by linarith+
  have "2 ^ nat (bp - 1) \<le> p" "p < 2 ^ nat bp" "2 ^ nat (bq - 1) \<le> q" "q < 2 ^ nat bq"
    using bitlen_bounds [OF p] bitlen_bounds [OF q] unfolding bp_def bq_def by simp_all
  then have "(of_int (2 ^ nat (bp - 1)) :: rat) \<le> of_int p" "(of_int p :: rat) < of_int (2 ^ nat bp)"
    "(of_int (2 ^ nat (bq - 1)) :: rat) \<le> of_int q" "(of_int q :: rat) < of_int (2 ^ nat bq)"
    by (simp_all only: of_int_le_iff of_int_less_iff)
  then have P: "(2::rat) powi (bp - 1) \<le> of_int p" "(of_int p :: rat) < 2 powi bp"
    and Q: "(2::rat) powi (bq - 1) \<le> of_int q" "(of_int q :: rat) < 2 powi bq"
    using bp bq by (simp_all add: power_int_def)
  have qpos: "(0::rat) < of_int q" using q by simp
  have "x < 2 powi bp / of_int q"
    unfolding x using P(2) qpos by (simp add: divide_strict_right_mono)
  also have "\<dots> \<le> 2 powi bp / 2 powi (bq - 1)"
    using Q(1) qpos by (intro divide_left_mono mult_pos_pos) simp_all
  also have "\<dots> = 2 powi (bp - (bq - 1))"
    by (rule power_int_diff [symmetric]) simp
  also have "bp - (bq - 1) = bp - bq + 1"
    by simp
  finally have up: "x < 2 powi (bp - bq + 1)" .
  have "(2::rat) powi (bp - bq - 1) = 2 powi (bp - 1) / 2 powi bq"
    by (simp add: power_int_diff)
  also have "\<dots> < 2 powi (bp - 1) / of_int q"
    using Q(2) qpos by (intro divide_strict_left_mono) simp_all
  also have "\<dots> \<le> x"
    unfolding x using P(1) qpos by (simp add: divide_right_mono)
  finally have lo: "2 powi (bp - bq - 1) < x" .
  have e: "exponent x = (if 2 powi (bp - bq) \<le> x then bp - bq else bp - bq - 1)"
    by (simp add: exponent_def pq bp_def bq_def)
  show "2 powi exponent x \<le> x"
    unfolding e using lo by simp
  show "x < 2 powi (exponent x + 1)"
    unfolding e using up by simp
qed

lemma binary64_nonneg: "0 \<le> x \<Longrightarrow> 0 \<le> binary64 x"
  by (simp add: binary64_def Let_def round_half_even_nonneg sgn_if)

lemma binary64_error:
  assumes "0 \<le> x"
  shows "\<bar>binary64 x - x\<bar> \<le> x / 2 ^ 53"
proof (cases "x = 0")
  case True
  then show ?thesis by (simp add: binary64_def)
next
  case False
  with assms have x: "0 < x" by simp
  define e where "e = exponent x - 52"
  define s :: rat where "s = 2 powi e"
  define m where "m = round_half_even (x / s)"
  have s: "0 < s" by (simp add: s_def)
  have b: "binary64 x = of_int m * s"
    using x by (simp add: binary64_def Let_def e_def s_def m_def)
  have "2 powi exponent x = s * 2 ^ 52"
    unfolding s_def e_def by (simp add: power_int_diff)
  with exponent_bounds(1) [OF x] have sx: "s * 2 ^ 52 \<le> x" by simp
  have "\<bar>of_int m - x / s\<bar> \<le> 1 / 2"
    unfolding m_def by (rule round_half_even_error)
  then have "\<bar>of_int m - x / s\<bar> * s \<le> 1 / 2 * s"
    using s by (intro mult_right_mono) simp_all
  moreover have "\<bar>of_int m - x / s\<bar> * s = \<bar>of_int m * s - x\<bar>"
  proof -
    have "\<bar>of_int m * s - x\<bar> = \<bar>(of_int m - x / s) * s\<bar>"
      using s by (simp add: left_diff_distrib)
    also have "\<dots> = \<bar>of_int m - x / s\<bar> * \<bar>s\<bar>"
      by (rule abs_mult)
    finally show ?thesis using s by simp
  qed
  ultimately have "\<bar>binary64 x - x\<bar> \<le> s / 2"
    unfolding b by simp
  also have "\<dots> \<le> x / 2 ^ 53"
    using sx by simp
  finally show ?thesis .
qed

lemma binary64_100: "binary64 100 = 100"
  by code_simp

lemma Math_round_error: "\<bar>of_int (Math_round x) - x\<bar> \<le> 1 / 2"
proof -
  define f where "f = \<lfloor>x + 1 / 2\<rfloor>"
  have "of_int f \<le> x + 1 / 2" "x + 1 / 2 < of_int f + 1"
    unfolding f_def by linarith+
  then show ?thesis
    unfolding Math_round_def f_def [symmetric] by (simp add: abs_if)
qed

lemma percentage_error:
  assumes "c \<le> t" "0 < t"
  defines "k \<equiv> Math_round (fmul (fmul (fdiv (of_nat c) (of_nat t)) 100) 10)"
  shows "\<bar>of_int k - of_nat c / of_nat t * 1000\<bar> \<le> (1 / 2 + 1 / 2 ^ 40 :: rat)"
    and "0 \<le> k" and "k \<le> 1000"
proof -
  define u :: rat where "u = 1 / 2 ^ 53"
  define x0 :: rat where "x0 = of_nat c / of_nat t"
  define x1 where "x1 = binary64 x0"
  define x2 where "x2 = binary64 (x1 * 100)"
  define x3 where "x3 = binary64 (x2 * 10)"
  have k: "k = Math_round x3"
    by (simp add: k_def fmul_def fdiv_def x3_def x2_def x1_def x0_def)
  have u: "0 < u" "u \<le> 1 / 1000" by (simp_all add: u_def)
  have x0: "0 \<le> x0" "x0 \<le> 1"
    using assms by (simp_all add: x0_def)
  have e1: "\<bar>x1 - x0\<bar> \<le> x0 * u"
    unfolding x1_def u_def using binary64_error [OF x0(1)] by simp
  have "x0 * u \<le> 1 * u"
    using x0(2) u(1) by (intro mult_right_mono) simp_all
  with e1 have e1': "\<bar>x1 - x0\<bar> \<le> u" by linarith
  have x1: "0 \<le> x1" "x1 \<le> 2"
    using binary64_nonneg [OF x0(1)] e1' x0(2) u(2) unfolding x1_def [symmetric] by linarith+
  have p1: "0 \<le> x1 * 100" using x1(1) by simp
  have e2: "\<bar>x2 - x1 * 100\<bar> \<le> x1 * 100 * u"
    unfolding x2_def u_def using binary64_error [OF p1] by simp
  have "x1 * u \<le> 2 * u"
    using x1(2) u(1) by (intro mult_right_mono) simp_all
  moreover have "x1 * 100 * u = 100 * (x1 * u)" by simp
  ultimately have e2': "\<bar>x2 - x1 * 100\<bar> \<le> 200 * u"
    using e2 by linarith
  have x2: "0 \<le> x2" "x2 \<le> 256"
    using binary64_nonneg [OF p1] e2' x1(2) u(2) unfolding x2_def [symmetric] by linarith+
  have p2: "0 \<le> x2 * 10" using x2(1) by simp
  have e3: "\<bar>x3 - x2 * 10\<bar> \<le> x2 * 10 * u"
    unfolding x3_def u_def using binary64_error [OF p2] by simp
  have "x2 * u \<le> 256 * u"
    using x2(2) u(1) by (intro mult_right_mono) simp_all
  moreover have "x2 * 10 * u = 10 * (x2 * u)" by simp
  ultimately have e3': "\<bar>x3 - x2 * 10\<bar> \<le> 2560 * u"
    using e3 by linarith
  have x3: "0 \<le> x3"
    unfolding x3_def by (rule binary64_nonneg [OF p2])
  have "\<bar>x3 - x0 * 1000\<bar> \<le> 5560 * u"
    using e1' e2' e3' by linarith
  also have "\<dots> \<le> 1 / 2 ^ 40"
    by (simp add: u_def)
  finally have e: "\<bar>x3 - x0 * 1000\<bar> \<le> 1 / 2 ^ 40" .
  have r: "\<bar>of_int k - x3\<bar> \<le> 1 / 2"
    unfolding k by (rule Math_round_error)
  from e r show 1: "\<bar>of_int k - of_nat c / of_nat t * 1000\<bar> \<le> (1 / 2 + 1 / 2 ^ 40 :: rat)"
    unfolding x0_def [symmetric] by linarith
  have "(0::rat) \<le> x3 + 1 / 2" using x3 by simp
  then show "0 \<le> k"
    unfolding k Math_round_def by simp
  have "(1 / 2 ^ 40 :: rat) < 1 / 2" by simp
  with 1 x0(2) have "(of_int k :: rat) < 1001"
    unfolding x0_def [symmetric] by linarith
  then show "k \<le> 1000" by simp
qed

lemma fdiv_10_bounds:
  assumes "0 \<le> k" "k \<le> 1000"
  shows "0 \<le> fdiv (of_int k) 10" and "fdiv (of_int k) 10 \<le> 100"
proof -
  have n: "(0::rat) \<le> of_int k / 10" using assms(1) by simp
  show "0 \<le> fdiv (of_int k) 10"
    unfolding fdiv_def by (rule binary64_nonneg [OF n])
  show "fdiv (of_int k) 10 \<le> 100"
  proof (cases "k = 1000")
    case True
    then show ?thesis by (simp add: fdiv_def binary64_100)
  next
    case False
    with assms(2) have "k \<le> 999" by simp
    then have "(of_int k :: rat) \<le> 999" by simp
    then have le: "(of_int k / 10 :: rat) \<le> 999 / 10" by simp
    have "\<bar>binary64 (of_int k / 10) - of_int k / 10\<bar> \<le> of_int k / 10 / 2 ^ 53"
      by (rule binary64_error [OF n])
    also have "\<dots> \<le> 999 / 10 / 2 ^ 53"
      using le by (intro divide_right_mono) simp_all
    also have "\<dots> \<le> 1 / 10" by simp
    finally show ?thesis
      unfolding fdiv_def using le by linarith
  qed
qed

subsection \<open>Doubles that are exact, and the average\<close>

lemma round_half_even_of_int: "round_half_even (of_int m) = m"
  by (simp add: round_half_even_def)

lemma binary64_exact:
  assumes "0 < x" and "x = of_int m * 2 powi (exponent x - 52)"
  shows "binary64 x = x"
proof -
  define s :: rat where "s = 2 powi (exponent x - 52)"
  have s: "0 < s" by (simp add: s_def)
  have "x / s = of_int m"
    using assms(2) s unfolding s_def [symmetric] by simp
  then have "round_half_even (x / s) = m"
    by (simp add: round_half_even_of_int)
  then have "binary64 x = of_int m * s"
    using assms(1) by (simp add: binary64_def Let_def s_def)
  then show ?thesis using assms(2) by (simp add: s_def)
qed

lemma exponent_less:
  assumes "0 < x" "x < 2 ^ n"
  shows "exponent x < int n"
proof (rule ccontr)
  assume "\<not> exponent x < int n"
  then have "int n \<le> exponent x" by simp
  then have "(2::rat) powi int n \<le> 2 powi exponent x"
    by (intro power_int_increasing) simp_all
  with exponent_bounds(1) [OF assms(1)] assms(2) show False by simp
qed

lemma binary64_scaled:
  assumes "0 < x" "x < 2 ^ n" "n \<le> 53" "x * 2 ^ (53 - n) = of_int m"
  shows "binary64 x = x"
proof -
  define e where "e = exponent x"
  have e: "e < int n" unfolding e_def by (rule exponent_less [OF assms(1,2)])
  define d where "d = nat (int n - 1 - e)"
  have d: "int d = int n - 1 - e" using e by (simp add: d_def)
  have "e - 52 = - int (53 - n + d)"
    using d assms(3) by simp
  then have "(2::rat) powi (e - 52) = 2 powi (- int (53 - n + d))"
    by (rule arg_cong)
  also have "\<dots> = inverse (2 ^ (53 - n + d))"
    unfolding power_int_minus power_int_of_nat by (rule refl)
  also have "\<dots> = 1 / (2 ^ (53 - n) * 2 ^ d)"
    by (simp add: power_add inverse_eq_divide)
  finally have "(2::rat) powi (e - 52) = 1 / (2 ^ (53 - n) * 2 ^ d)" .
  then have "of_int (m * 2 ^ d) * 2 powi (e - 52) = x * 2 ^ (53 - n) * 2 ^ d / (2 ^ (53 - n) * 2 ^ d)"
    using assms(4) by simp
  also have "\<dots> = x" by simp
  finally have "x = of_int (m * 2 ^ d) * 2 powi (exponent x - 52)"
    unfolding e_def by simp
  with assms(1) show ?thesis by (rule binary64_exact)
qed

lemma binary64_of_int:
  assumes "0 \<le> z" "z < 2 ^ 53"
  shows "binary64 (of_int z) = of_int z"
proof (cases "z = 0")
  case True
  then show ?thesis by (simp add: binary64_def)
next
  case False
  with assms have "(0::rat) < of_int z" "(of_int z :: rat) < 2 ^ 53"
    by (simp_all add: of_int_less_numeral_power_cancel_iff)
  then show ?thesis
    by (rule binary64_scaled [where m = z]) simp_all
qed

lemma binary64_half:
  assumes "0 \<le> k" "of_int k + 1 / 2 < (2 ^ 52 :: rat)"
  shows "binary64 (of_int k + 1 / 2) = of_int k + 1 / 2"
proof -
  have "(0::rat) < of_int k + 1 / 2" using assms(1) by simp
  then show ?thesis
    using assms(2) by (rule binary64_scaled [where m = "2 * k + 1"]) (simp_all add: algebra_simps)
qed

lemma foldl_fadd:
  assumes "0 \<le> a" "\<forall>t\<in>set ts. 0 \<le> t" "a + sum_list ts < 2 ^ 53"
  shows "foldl fadd (of_int a) (map of_int ts) = of_int (a + sum_list ts)"
  using assms
proof (induction ts arbitrary: a)
  case Nil
  then show ?case by simp
next
  case (Cons t ts)
  have s: "0 \<le> sum_list ts" using Cons.prems(2) by (simp add: sum_list_nonneg)
  have "fadd (of_int a) (of_int t) = of_int (a + t)"
    unfolding fadd_def of_int_add [symmetric]
    using Cons.prems s by (intro binary64_of_int) simp_all
  moreover have "foldl fadd (of_int (a + t)) (map of_int ts) = of_int (a + t + sum_list ts)"
    using Cons.prems by (intro Cons.IH) (simp_all add: add.assoc)
  ultimately show ?case by (simp add: add.assoc)
qed

lemma Math_round_binary64_quotient:
  assumes S: "0 \<le> S" "S < 2 ^ 52" and n: "0 < n"
  shows "Math_round (binary64 (of_int S / of_nat n)) = Math_round (of_int S / of_nat n)"
proof (cases "S = 0")
  case True
  then show ?thesis by (simp add: binary64_def)
next
  case False
  define q :: rat where "q = of_int S / of_nat n"
  define j where "j = Math_round q"
  define D :: rat where "D = 2 * of_nat n"
  have "1 \<le> n" using n by simp
  then have n1: "(1::rat) \<le> of_nat n"
    by (metis of_nat_1 of_nat_le_iff)
  have D: "0 < D" "(1::rat) \<le> of_nat n" "D = 2 * of_nat n"
    using n n1 by (simp_all add: D_def)
  have Sr: "(0::rat) < of_int S" "(of_int S :: rat) < 2 ^ 52"
    using S False by (simp_all add: of_int_less_numeral_power_cancel_iff)
  have q: "0 < q" unfolding q_def using Sr(1) n by simp
  have "q \<le> of_int S"
    unfolding q_def using Sr(1) D(2) by (simp add: divide_le_eq mult_le_cancel_left1)
  with Sr(2) have q52: "q < 2 ^ 52" by simp
  have qD: "q * D = 2 * of_int S"
    unfolding q_def D_def using n by simp
  have j: "of_int j \<le> q + 1 / 2" "q + 1 / 2 < of_int j + 1"
    unfolding j_def Math_round_def by linarith+
  have "Math_round (binary64 q) = j"
  proof (cases "q + 1 / 2 = of_int j")
    case True
    then have e: "q = of_int (j - 1) + 1 / 2" by simp
    have "(0::rat) < of_int j" using q True by linarith
    then have "0 \<le> j - 1" by simp
    moreover have "of_int (j - 1) + 1 / 2 < (2 ^ 52 :: rat)"
      using q52 unfolding e .
    ultimately have "binary64 (of_int (j - 1) + 1 / 2) = of_int (j - 1) + 1 / 2"
      by (rule binary64_half)
    then have "binary64 q = q" unfolding e .
    then show ?thesis by (simp add: j_def)
  next
    case False
    with j(1) have lo: "of_int j < q + 1 / 2" by simp
    define N :: int where "N = 2 * S + int n"
    define M :: int where "M = 2 * int n"
    have N: "(of_int N :: rat) = (q + 1 / 2) * D"
      using qD by (simp add: N_def D_def algebra_simps)
    have M: "(of_int M :: rat) = D"
      by (simp add: M_def D_def)
    have "of_int j * D < (q + 1 / 2) * D" "(q + 1 / 2) * D < (of_int j + 1) * D"
      using lo j(2) D(1) by simp_all
    then have "(of_int (j * M) :: rat) < of_int N" "(of_int N :: rat) < of_int ((j + 1) * M)"
      unfolding N by (simp_all add: M)
    then have "j * M < N" "N < (j + 1) * M"
      by (simp_all only: of_int_less_iff)
    then have "j * M + 1 \<le> N" "N + 1 \<le> (j + 1) * M" by simp_all
    then have "(of_int (j * M + 1) :: rat) \<le> of_int N" "(of_int (N + 1) :: rat) \<le> of_int ((j + 1) * M)"
      by (simp_all only: of_int_le_iff)
    then have "of_int j * D + 1 \<le> (q + 1 / 2) * D" "(q + 1 / 2) * D + 1 \<le> (of_int j + 1) * D"
      unfolding N [symmetric] by (simp_all add: M)
    then have "(of_int j + 1 / D) * D \<le> (q + 1 / 2) * D"
      "(q + 1 / 2 + 1 / D) * D \<le> (of_int j + 1) * D"
      using D(1) by (simp_all add: distrib_right)
    then have g: "of_int j + 1 / D \<le> q + 1 / 2" "q + 1 / 2 + 1 / D \<le> of_int j + 1"
      using D(1) by simp_all
    have "q / 2 ^ 53 < 1 / D"
    proof -
      have "q * D < 2 ^ 53" unfolding qD using Sr(2) by simp
      then have "q * D / (2 ^ 53 * D) < 2 ^ 53 / (2 ^ 53 * D)"
        using D(1) by (intro divide_strict_right_mono) simp_all
      then show ?thesis using D(1) by simp
    qed
    moreover have "\<bar>binary64 q - q\<bar> \<le> q / 2 ^ 53"
      using q by (intro binary64_error) simp
    ultimately have "of_int j \<le> binary64 q + 1 / 2" "binary64 q + 1 / 2 < of_int j + 1"
      using g by linarith+
    then have "\<lfloor>binary64 q + 1 / 2\<rfloor> = j" by (rule floor_unique)
    then show ?thesis by (simp add: Math_round_def)
  qed
  then show ?thesis unfolding j_def q_def .
qed

lemma average_on_doubles_exact:
  assumes "ts \<noteq> []" "\<forall>t\<in>set ts. 0 \<le> t" "sum_list ts < 2 ^ 52"
  shows "average_on_doubles ts = Math_round (of_int (sum_list ts) / of_nat (length ts))"
proof -
  have "sum_list ts < 2 ^ 53" using assms(3) by simp
  then have "foldl fadd (of_int 0) (map of_int ts) = of_int (0 + sum_list ts)"
    using assms(2) by (intro foldl_fadd) simp_all
  then have f: "foldl fadd 0 (map of_int ts) = of_int (sum_list ts)" by simp
  have "0 \<le> sum_list ts" using assms(2) by (simp add: sum_list_nonneg)
  moreover have "0 < length ts" using assms(1) by simp
  ultimately show ?thesis
    unfolding average_on_doubles_def f fdiv_def
    using assms(3) by (intro Math_round_binary64_quotient)
qed

subsection \<open>The final record\<close>

lemma mastery_record_counts:
  assumes "r = mastery_record (record_attempts nd (new_mastery p q c) ps)"
  shows "mastery_data.total_attempts r = length ps"
    and "mastery_data.correct_count r = length (filter correct ps)"
    and "mastery_data.incorrect_count r = length (filter (\<lambda>p. \<not> correct p) ps)"
  unfolding assms
  by (simp_all add: mastery_record_def total_record_attempts correct_record_attempts
        incorrect_record_attempts new_mastery_def)

lemma mastery_record_percentage:
  "mastery_data.mastery_percentage (mastery_record m) =
     (if mastery.total_attempts m > 0
      then fdiv (of_int (Math_round (fmul (fmul (fdiv (of_nat (mastery.correct_count m))
             (of_nat (mastery.total_attempts m))) 100) 10))) 10
      else 0)"
  by (simp add: mastery_record_def)

subsection \<open>Evaluation\<close>

lemma floor_numeral_divide_rat: "\<lfloor>numeral a / numeral b :: rat\<rfloor> = numeral a div numeral b"
  using floor_divide_of_int_eq [of "numeral a" "numeral b", where 'a = rat] by simp

lemma doubles_of_one_half:
  "fdiv 1 2 = 1 / 2" "fmul (1 / 2) 100 = 50" "fmul 50 10 = 500" "fdiv 500 10 = 50"
  by code_simp+

lemma doubles_of_one:
  "fdiv 1 1 = 1" "fmul 1 100 = 100" "fmul 100 10 = 1000" "fdiv 1000 10 = 100"
  by code_simp+

lemma doubles_of_23_80:
  "fdiv (of_int (Math_round (fmul (fmul (fdiv 23 80) 100) 10))) 10 = binary64 (287 / 10)"
  "binary64 (287 / 10) \<noteq> of_int (Math_round (23 / 80 * 1000)) / 10"
  "binary64 (287 / 10) \<noteq> fdiv (of_int (Math_round (fmul (fdiv 23 80) 1000))) 10"
  by code_simp+

lemmas aggregation_defs =
  masteryData_def masteryMap_def questionsMap_def Map_new_def Map_values_def forEach_practice_def
  question_of_def questionId_def truthy_string_def truthy_number_def Map_get_def Map_has_def
  forEach_standardCode_def new_mastery_def record_attempt_def mastery_record_def or_string_def
  Math_round_def date_gt_def floor_numeral_divide_rat doubles_of_one_half

subsection \<open>Codes, latencies and skipped attempts\<close>

lemma standard_codes_masteryData:
  "map mastery_data.standard_code (masteryData nd ps qs) = map fst (masteryMap nd ps qs)"
proof -
  have "\<forall>e\<in>set (masteryMap nd ps qs). mastery.standard_code (snd e) = fst e"
    using standard_code_masteryMap by (auto simp: entry_masteryMap)
  then have "map (\<lambda>e. mastery.standard_code (snd e)) (masteryMap nd ps qs) = map fst (masteryMap nd ps qs)"
    by (intro map_cong) auto
  then show ?thesis
    by (simp add: masteryData_def Map_values_def mastery_record_def comp_def)
qed

lemma foldl_plus_sum_list: "foldl (+) a xs = a + sum_list (xs :: int list)"
  by (induction xs arbitrary: a) simp_all

lemma mastery_record_avg:
  assumes "r = mastery_record (record_attempts nd (new_mastery p q c) ps)"
  shows "avg_response_time_ms r =
     (if latencies ps = [] then None
      else Some (Math_round (of_int (sum_list (latencies ps)) / of_nat (length (latencies ps)))))"
  unfolding assms
  by (simp add: mastery_record_def response_times_record_attempts new_mastery_def foldl_plus_sum_list)

lemma response_times_masteryMap:
  assumes "e \<in> set (masteryMap nd ps qs)"
  shows "mastery.response_times (snd e) = latencies (contributions (questionsMap qs) (fst e) ps)"
proof -
  from assms have "Map_get (masteryMap nd ps qs) (fst e) = Some (snd e)"
    using entry_masteryMap [of "fst e" "snd e" nd ps qs] by simp
  then obtain p rest where
    k: "contributions (questionsMap qs) (fst e) ps = p # rest" and
    m: "snd e = record_attempts nd
          (new_mastery p (the (question_of (questionsMap qs) p)) (fst e)) (p # rest)"
    by (auto simp: get_masteryMap split: list.splits)
  show ?thesis
    unfolding k m response_times_record_attempts by (simp add: new_mastery_def)
qed

lemma last_attempted_record_attempts_invalid:
  "nd (mastery.last_attempted m) = None \<Longrightarrow>
   mastery.last_attempted (record_attempts nd m ps) = mastery.last_attempted m"
  by (induction ps rule: rev_induct)
     (simp_all add: record_attempts_snoc record_attempt_def date_gt_def split: option.splits)

subsection \<open>Lookups of the enrichment\<close>

lemma Map_new_snoc: "Map_new (es @ [(k, v)]) = Map_set (Map_new es) k v"
  by (simp add: Map_new_def)

lemma Map_get_Map_new: "Map_get (Map_new es) k = map_of (rev es) k"
proof (induction es rule: rev_induct)
  case Nil
  show ?case by (simp add: Map_new_def Map_get_def)
next
  case (snoc e es)
  obtain k' v' where e: "e = (k', v')" by (cases e)
  show ?case
    unfolding e Map_new_snoc Map_get_set using snoc.IH by simp
qed

lemma get_or_null_miss:
  assumes "no_match key response i"
  shows "get_or_null (Map_new (case response of None \<Rightarrow> []
                               | Some rows \<Rightarrow> map (\<lambda>r. (key r, r)) rows)) i = None"
proof (cases i)
  case None
  then show ?thesis by (simp add: get_or_null_def)
next
  case (Some k)
  show ?thesis
  proof (cases response)
    case None
    then show ?thesis by (simp add: get_or_null_def Some Map_get_Map_new)
  next
    case (Some rows)
    with assms \<open>i = Some k\<close> have "k \<notin> key ` set rows"
      by (auto simp: no_match_def)
    then have "map_of (rev (map (\<lambda>r. (key r, r)) rows)) k = None"
      by (simp add: map_of_eq_None_iff image_image)
    then show ?thesis
      by (simp add: get_or_null_def \<open>i = Some k\<close> Some Map_get_Map_new)
  qed
qed

subsection \<open>The percentage away from a tie, and the record of a code\<close>

lemma percentage_nearest:
  assumes t: "0 < t" "t < 2 ^ 39"
    and k: "\<bar>of_int k - of_nat c / of_nat t * 1000\<bar> \<le> (1 / 2 + 1 / 2 ^ 40 :: rat)"
    and tie: "frac (of_nat c / of_nat t * 1000 :: rat) \<noteq> 1 / 2"
  shows "k = Math_round (of_nat c / of_nat t * 1000)"
proof -
  define y :: rat where "y = of_nat c / of_nat t * 1000"
  define j where "j = Math_round y"
  define T :: rat where "T = of_nat t"
  have T: "0 < T" "T < 2 ^ 39"
    using t unfolding T_def by (simp_all add: of_nat_less_numeral_power_cancel_iff)
  have yT: "y * T = of_nat c * 1000"
    using T(1) by (simp add: y_def T_def)
  have j: "of_int j \<le> y + 1 / 2" "y + 1 / 2 < of_int j + 1"
    unfolding j_def Math_round_def by linarith+
  have e: "(1 / 2 ^ 40 :: rat) * (2 * T) < 1"
    using T by simp
  have k': "\<bar>of_int k - y\<bar> \<le> 1 / 2 + 1 / 2 ^ 40"
    using k by (simp add: y_def)
  have "\<not> j < k"
  proof
    assume "j < k"
    then have "j + 1 \<le> k" by simp
    then have "(of_int j + 1 :: rat) \<le> of_int k" by (metis of_int_1 of_int_add of_int_le_iff)
    with k' j(2) have d: "0 < of_int j + 1 / 2 - y" "of_int j + 1 / 2 - y \<le> 1 / 2 ^ 40"
      by linarith+
    define z :: int where "z = (2 * j + 1) * int t - 2000 * int c"
    have z: "(of_int z :: rat) = (of_int j + 1 / 2 - y) * (2 * T)"
      using yT by (simp add: z_def T_def algebra_simps)
    have "0 < (of_int j + 1 / 2 - y) * (2 * T)"
      using d(1) T(1) by simp
    moreover have "(of_int j + 1 / 2 - y) * (2 * T) \<le> 1 / 2 ^ 40 * (2 * T)"
      using d(2) T(1) by (intro mult_right_mono) simp_all
    ultimately have "(0::rat) < of_int z" "(of_int z :: rat) < 1"
      using e unfolding z by linarith+
    then have "0 < z" "z < 1" by simp_all
    then show False by simp
  qed
  moreover have "\<not> k < j"
  proof
    assume "k < j"
    then have "k + 1 \<le> j" by simp
    then have "(of_int k + 1 :: rat) \<le> of_int j" by (metis of_int_1 of_int_add of_int_le_iff)
    with k' j(1) have d: "0 \<le> y - (of_int j - 1 / 2)" "y - (of_int j - 1 / 2) \<le> 1 / 2 ^ 40"
      by linarith+
    define z :: int where "z = 2000 * int c - (2 * j - 1) * int t"
    have z: "(of_int z :: rat) = (y - (of_int j - 1 / 2)) * (2 * T)"
      using yT by (simp add: z_def T_def algebra_simps)
    have "0 \<le> (y - (of_int j - 1 / 2)) * (2 * T)"
      using d(1) T(1) by simp
    moreover have "(y - (of_int j - 1 / 2)) * (2 * T) \<le> 1 / 2 ^ 40 * (2 * T)"
      using d(2) T(1) by (intro mult_right_mono) simp_all
    ultimately have "(0::rat) \<le> of_int z" "(of_int z :: rat) < 1"
      using e unfolding z by linarith+
    then have "z = 0" by simp
    with z T(1) have "y = of_int (j - 1) + 1 / 2" by simp
    then have "frac y = 1 / 2"
      unfolding frac_unique_iff by simp
    with tie show False by (simp add: y_def)
  qed
  ultimately show ?thesis unfolding y_def j_def by simp
qed

lemma contributions_append:
  "contributions qm c (xs @ ys) = contributions qm c xs @ contributions qm c ys"
  by (simp add: contributions_def)

lemma contributions_replicate:
  "count_list (codes_of qm a) c = 1 \<Longrightarrow> contributions qm c (replicate n a) = replicate n a"
  by (induction n) (simp_all add: contributions_Cons)

lemma masteryData_has_record:
  assumes "contributions (questionsMap qs) c ps \<noteq> []"
  shows "\<exists>p q. mastery_record
           (record_attempts nd (new_mastery p q c) (contributions (questionsMap qs) c ps))
         \<in> set (masteryData nd ps qs)"
proof -
  from assms obtain p rest where k: "contributions (questionsMap qs) c ps = p # rest"
    by (cases "contributions (questionsMap qs) c ps") auto
  define m where "m = record_attempts nd
      (new_mastery p (the (question_of (questionsMap qs) p)) c) (p # rest)"
  have g: "Map_get (masteryMap nd ps qs) c = Some m"
    unfolding get_masteryMap k m_def by simp
  then have "mastery.standard_code m = c"
    by (rule standard_code_masteryMap)
  then have "mastery_data.standard_code (mastery_record m) = c"
    by (simp add: mastery_record_def)
  with g have "mastery_record m \<in> set (masteryData nd ps qs)"
    unfolding in_masteryData by blast
  then show ?thesis unfolding m_def k by blast
qed

subsection \<open>Rows of the store and rows of the data model\<close>

lemma Map_get_typed:
  "Map_get (questionsMap (map_option (map typed_question) rows)) i =
     map_option typed_question (Map_get (rowsMap rows) i)"
proof -
  define rs where "rs = (case rows of None \<Rightarrow> [] | Some qs \<Rightarrow> qs)"
  have 1: "questionsMap (map_option (map typed_question) rows) =
      Map_new (map (\<lambda>q. (question_row.id' q, typed_question q)) rs)"
    by (cases rows) (simp_all add: questionsMap_def rs_def comp_def typed_question_def)
  have 2: "rowsMap rows = Map_new (map (\<lambda>q. (question_row.id' q, q)) rs)"
    by (cases rows) (simp_all add: rowsMap_def rs_def)
  have "map_of (map (\<lambda>q. (question_row.id' q, typed_question q)) xs) i =
      map_option typed_question (map_of (map (\<lambda>q. (question_row.id' q, q)) xs) i)" for xs
    by (induction xs) simp_all
  from this [of "rev rs"] show ?thesis
    unfolding 1 2 Map_get_Map_new rev_map .
qed

lemma Map_get_rowsMap_in:
  assumes "Map_get (rowsMap rows) i = Some q"
  shows "q \<in> set (case rows of None \<Rightarrow> [] | Some qs \<Rightarrow> qs)"
proof -
  from assms have "(i, q) \<in> set (rev (case rows of None \<Rightarrow> []
      | Some qs \<Rightarrow> map (\<lambda>q. (question_row.id' q, q)) qs))"
    unfolding rowsMap_def Map_get_Map_new by (rule map_of_SomeD)
  then show ?thesis by (cases rows) auto
qed

lemma question_of_typed:
  "question_of (questionsMap (map_option (map typed_question) rows)) p =
     map_option typed_question (question_of (rowsMap rows) p)"
  by (simp add: question_of_def Map_get_typed)

lemma forEach_practice_try_eq:
  "forEach_practice_try nd (rowsMap rows) mm p =
     (if raises (rowsMap rows) p then Inl TypeError
      else Inr (forEach_practice nd (questionsMap (map_option (map typed_question) rows)) mm p))"
  by (auto simp: forEach_practice_try_def forEach_practice_def raises_def question_of_typed
      typed_question_def split: option.splits codes_column.splits)

lemma forEach_try_eq:
  "forEach_try (forEach_practice_try nd (rowsMap rows)) mm ps =
     (if \<exists>p\<in>set ps. raises (rowsMap rows) p then Inl TypeError
      else Inr (foldl (forEach_practice nd (questionsMap (map_option (map typed_question) rows)))
                  mm ps))"
  by (induction ps arbitrary: mm) (simp_all add: forEach_practice_try_eq)

lemma masteryData_try_eq:
  "masteryData_try nd ps rows =
     (if \<exists>p\<in>set ps. raises (rowsMap rows) p then Inl TypeError
      else Inr (masteryData nd ps (map_option (map typed_question) rows)))"
  by (simp add: masteryData_try_def forEach_try_eq masteryData_def masteryMap_def)

lemma raises_row:
  assumes "raises (rowsMap rows) p"
  shows "\<exists>q\<in>set (case rows of None \<Rightarrow> [] | Some qs \<Rightarrow> qs).
           \<exists>s. question_row.ny_standards_codes q = Codes_text s"
proof -
  from assms obtain q s where "question_of (rowsMap rows) p = Some q"
      "question_row.ny_standards_codes q = Codes_text s"
    by (auto simp: raises_def split: option.splits codes_column.splits)
  moreover from this(1) have "q \<in> set (case rows of None \<Rightarrow> [] | Some qs \<Rightarrow> qs)"
    by (auto simp: question_of_def split: if_splits dest: Map_get_rowsMap_in)
  ultimately show ?thesis by blast
qed

lemmas example_defs = saved_attempt_def pool_question_def march_def

lemmas witness_defs = aggregation_defs example_defs codes_of_def contributions_def latencies_def

lemmas route_defs =
  practice_history_mastery_def allQuestionIds_def savedQuestionIds_def referenceQuestionIds_def
  uniq_def masteryData_try_def rowsMap_def forEach_practice_try_def typed_question_def
  store_def pool_row_def raises_def

section \<open>The mastery aggregation\<close>

text \<open>
  C1. Two attempts on the same saved question, whose catalog entry has the codes \<open>A.1\<close>
  and \<open>A.2\<close>: the first correct with 500 ms, the second incorrect with 700 ms. The
  output has one record for each code, with 2 attempts, 1 correct, 1 incorrect, 50 percent
  and an average of 600 ms, whatever the other columns of the rows are.
\<close>

theorem scenario_two_attempts:
  "map (\<lambda>r. (mastery_data.standard_code r, mastery_data.total_attempts r,
              mastery_data.correct_count r, mastery_data.incorrect_count r,
              mastery_percentage r, avg_response_time_ms r))
     (masteryData newDate
        [\<lparr> correct = True, response_time_ms = Some 500, practice.created_at = t1,
           practice.module_id = m1, practice.topic_id = tp1, question_id = Some ''q1'',
           question_type = ''saved'', reference_question_id = r1 \<rparr>,
         \<lparr> correct = False, response_time_ms = Some 700, practice.created_at = t2,
           practice.module_id = m2, practice.topic_id = tp2, question_id = Some ''q1'',
           question_type = ''saved'', reference_question_id = r2 \<rparr>]
        (Some [\<lparr> question.id' = ''q1'', ny_standards_codes = Some [''A.1'', ''A.2''],
                 question.module_id = qm, question.topic_id = qt \<rparr>]))
   = [(''A.1'', 2, 1, 1, 50, Some 600), (''A.2'', 2, 1, 1, 50, Some 600)]"
  by (simp add: aggregation_defs)

text \<open>
  C2, as stated, fails at a tie. The route computes the percentage on doubles, where
  \<^verbatim>\<open>(23/80)*100*10\<close> is \<^verbatim>\<open>287.49999999999994\<close> and rounds to 287: with 23 correct of 80
  attempts the percentage is 28.7, and \<open>round (23 / 80 * 1000) / 10\<close> is 28.8, on the exact
  numbers as on doubles.
\<close>

theorem percentage_tie_counterexample:
  "\<exists>r\<in>set (masteryData march
        (replicate 23 (saved_attempt True None ''2024-03-01T10:00:00Z'' ''q1'')
           @ replicate 57 (saved_attempt False None ''2024-03-01T10:00:00Z'' ''q1''))
        (Some [pool_question ''q1'' (Some [''A.1''])])).
     mastery_data.total_attempts r = 80 \<and> mastery_data.correct_count r = 23 \<and>
     mastery_percentage r = binary64 (287 / 10) \<and>
     mastery_percentage r \<noteq>
       of_int (Math_round (of_nat (mastery_data.correct_count r)
                            / of_nat (mastery_data.total_attempts r) * 1000)) / 10 \<and>
     mastery_percentage r \<noteq>
       fdiv (of_int (Math_round (fmul (fdiv (of_nat (mastery_data.correct_count r))
                                        (of_nat (mastery_data.total_attempts r))) 1000))) 10"
proof -
  let ?a = "saved_attempt True None ''2024-03-01T10:00:00Z'' ''q1''"
  let ?b = "saved_attempt False None ''2024-03-01T10:00:00Z'' ''q1''"
  let ?ps = "replicate 23 ?a @ replicate 57 ?b"
  let ?qs = "Some [pool_question ''q1'' (Some [''A.1''])]"
  have a: "count_list (codes_of (questionsMap ?qs) ?a) ''A.1'' = 1"
    and b: "count_list (codes_of (questionsMap ?qs) ?b) ''A.1'' = 1"
    by (simp_all add: witness_defs)
  have k: "contributions (questionsMap ?qs) ''A.1'' ?ps = ?ps"
    by (simp only: contributions_append contributions_replicate [OF a]
        contributions_replicate [OF b])
  have ne: "contributions (questionsMap ?qs) ''A.1'' ?ps \<noteq> []"
    unfolding k by simp
  from masteryData_has_record [OF ne, of march] obtain p q where
    r: "mastery_record (record_attempts march (new_mastery p q ''A.1'') ?ps)
          \<in> set (masteryData march ?ps ?qs)"
    unfolding k by blast
  define r where "r = mastery_record (record_attempts march (new_mastery p q ''A.1'') ?ps)"
  have ca: "correct ?a" and cb: "\<not> correct ?b"
    by (simp_all add: saved_attempt_def)
  have tot: "mastery_data.total_attempts r = 80"
    using mastery_record_counts(1) [OF r_def] by simp
  have cor: "mastery_data.correct_count r = 23"
    using mastery_record_counts(2) [OF r_def] ca cb by simp
  have pct: "mastery_percentage r = binary64 (287 / 10)"
    unfolding r_def mastery_record_percentage
    by (simp add: total_record_attempts correct_record_attempts new_mastery_def ca cb
        doubles_of_23_80(1))
  from r have "r \<in> set (masteryData march ?ps ?qs)"
    unfolding r_def .
  moreover have "mastery_percentage r \<noteq>
       of_int (Math_round (of_nat (mastery_data.correct_count r)
                            / of_nat (mastery_data.total_attempts r) * 1000)) / 10"
    unfolding pct tot cor using doubles_of_23_80(2) by simp
  moreover have "mastery_percentage r \<noteq>
       fdiv (of_int (Math_round (fmul (fdiv (of_nat (mastery_data.correct_count r))
                                        (of_nat (mastery_data.total_attempts r))) 1000))) 10"
    unfolding pct tot cor using doubles_of_23_80(3) by simp
  ultimately show ?thesis using tot cor pct by blast
qed

text \<open>
  C2, amended. Every record of the output, for every history and catalog, has
  \<open>total_attempts = correct_count + incorrect_count\<close>, at least one attempt and a percentage
  between 0 and 100. The percentage is the double nearest to \<open>k / 10\<close> for an integer \<open>k\<close>
  within \<open>1 / 2 + 1 / 2 ^ 40\<close> of \<open>correct_count / total_attempts * 1000\<close>; below \<open>2 ^ 39\<close>
  attempts it is the double nearest to \<open>round (correct_count / total_attempts * 1000) / 10\<close>
  unless \<open>correct_count / total_attempts * 1000\<close> is a tie (its fractional part is one half),
  where the route may round down.
\<close>

theorem masteryData_invariant:
  "\<forall>r\<in>set (masteryData newDate practiceHistory questions).
     mastery_data.total_attempts r =
       mastery_data.correct_count r + mastery_data.incorrect_count r \<and>
     1 \<le> mastery_data.total_attempts r \<and>
     (\<exists>k. mastery_data.mastery_percentage r = binary64 (of_int k / 10) \<and>
          \<bar>of_int k - of_nat (mastery_data.correct_count r)
                        / of_nat (mastery_data.total_attempts r) * 1000\<bar>
            \<le> (1 / 2 + 1 / 2 ^ 40 :: rat)) \<and>
     (mastery_data.total_attempts r < 2 ^ 39 \<and>
      frac (of_nat (mastery_data.correct_count r)
              / of_nat (mastery_data.total_attempts r) * 1000 :: rat) \<noteq> 1 / 2 \<longrightarrow>
        mastery_data.mastery_percentage r =
          binary64 (of_int (Math_round (of_nat (mastery_data.correct_count r)
                                          / of_nat (mastery_data.total_attempts r) * 1000)) / 10)) \<and>
     0 \<le> mastery_data.mastery_percentage r \<and> mastery_data.mastery_percentage r \<le> 100"
proof
  fix r
  assume "r \<in> set (masteryData newDate practiceHistory questions)"
  then obtain c p rest q where
    r: "r = mastery_record (record_attempts newDate (new_mastery p q c) (p # rest))"
    by (rule masteryData_record)
  define m where "m = record_attempts newDate (new_mastery p q c) (p # rest)"
  define n k j where "n = length (p # rest)" and "k = length (filter correct (p # rest))"
    and "j = length (filter (\<lambda>p. \<not> correct p) (p # rest))"
  have tot: "mastery_data.total_attempts r = n"
    and cor: "mastery_data.correct_count r = k"
    and inc: "mastery_data.incorrect_count r = j"
    unfolding n_def k_def j_def by (rule mastery_record_counts [OF r])+
  have n: "0 < n" by (simp add: n_def)
  have kn: "k \<le> n" unfolding k_def n_def by (rule length_filter_le)
  have sum: "n = k + j"
    unfolding n_def k_def j_def by (rule sum_length_filter_compl [symmetric])
  have mt: "mastery.total_attempts m = n" and mc: "mastery.correct_count m = k"
    unfolding m_def n_def k_def
    by (simp_all add: total_record_attempts correct_record_attempts new_mastery_def)
  define z where "z = Math_round (fmul (fmul (fdiv (of_nat k) (of_nat n)) 100) 10)"
  have pct: "mastery_data.mastery_percentage r = binary64 (of_int z / 10)"
    using n unfolding r m_def [symmetric] mastery_record_percentage mt mc z_def
    by (simp add: fdiv_def)
  have z: "\<bar>of_int z - of_nat k / of_nat n * 1000\<bar> \<le> (1 / 2 + 1 / 2 ^ 40 :: rat)"
    and z0: "0 \<le> z" and z1: "z \<le> 1000"
    unfolding z_def by (rule percentage_error [OF kn n])+
  have c1: "mastery_data.total_attempts r =
       mastery_data.correct_count r + mastery_data.incorrect_count r"
    unfolding tot cor inc by (rule sum)
  have c2: "1 \<le> mastery_data.total_attempts r"
    unfolding tot using n by simp
  have c3: "\<exists>k. mastery_data.mastery_percentage r = binary64 (of_int k / 10) \<and>
          \<bar>of_int k - of_nat (mastery_data.correct_count r)
                        / of_nat (mastery_data.total_attempts r) * 1000\<bar>
            \<le> (1 / 2 + 1 / 2 ^ 40 :: rat)"
    unfolding tot cor using pct z by blast
  have c4: "mastery_data.total_attempts r < 2 ^ 39 \<and>
      frac (of_nat (mastery_data.correct_count r)
              / of_nat (mastery_data.total_attempts r) * 1000 :: rat) \<noteq> 1 / 2 \<longrightarrow>
        mastery_data.mastery_percentage r =
          binary64 (of_int (Math_round (of_nat (mastery_data.correct_count r)
                                          / of_nat (mastery_data.total_attempts r) * 1000)) / 10)"
    unfolding tot cor
  proof
    assume a: "n < 2 ^ 39 \<and> frac (of_nat k / of_nat n * 1000 :: rat) \<noteq> 1 / 2"
    then have "z = Math_round (of_nat k / of_nat n * 1000)"
      using percentage_nearest [OF n _ z] by blast
    with pct show "mastery_data.mastery_percentage r =
        binary64 (of_int (Math_round (of_nat k / of_nat n * 1000)) / 10)"
      by simp
  qed
  have c5: "0 \<le> mastery_data.mastery_percentage r"
    and c6: "mastery_data.mastery_percentage r \<le> 100"
    unfolding pct fdiv_def [symmetric] by (rule fdiv_10_bounds [OF z0 z1])+
  from c1 c2 c3 c4 c5 c6 show "mastery_data.total_attempts r =
       mastery_data.correct_count r + mastery_data.incorrect_count r \<and>
     1 \<le> mastery_data.total_attempts r \<and>
     (\<exists>k. mastery_data.mastery_percentage r = binary64 (of_int k / 10) \<and>
          \<bar>of_int k - of_nat (mastery_data.correct_count r)
                        / of_nat (mastery_data.total_attempts r) * 1000\<bar>
            \<le> (1 / 2 + 1 / 2 ^ 40 :: rat)) \<and>
     (mastery_data.total_attempts r < 2 ^ 39 \<and>
      frac (of_nat (mastery_data.correct_count r)
              / of_nat (mastery_data.total_attempts r) * 1000 :: rat) \<noteq> 1 / 2 \<longrightarrow>
        mastery_data.mastery_percentage r =
          binary64 (of_int (Math_round (of_nat (mastery_data.correct_count r)
                                          / of_nat (mastery_data.total_attempts r) * 1000)) / 10)) \<and>
     0 \<le> mastery_data.mastery_percentage r \<and> mastery_data.mastery_percentage r \<le> 100"
    by (intro conjI)
qed

theorem masteryData_invariant_witness:
  "hd (masteryData march
         [saved_attempt True (Some 500) ''2024-03-01T10:00:00Z'' ''q1'',
          saved_attempt False None ''2024-03-02T10:00:00Z'' ''q1'',
          saved_attempt True (Some 900) ''2024-03-02T10:00:00Z'' ''q1'']
         (Some [pool_question ''q1'' (Some [''A.1''])]))
     \<in> set (masteryData march
         [saved_attempt True (Some 500) ''2024-03-01T10:00:00Z'' ''q1'',
          saved_attempt False None ''2024-03-02T10:00:00Z'' ''q1'',
          saved_attempt True (Some 900) ''2024-03-02T10:00:00Z'' ''q1'']
         (Some [pool_question ''q1'' (Some [''A.1''])])) \<and>
   (3::nat) < 2 ^ 39 \<and> frac (of_nat 2 / of_nat 3 * 1000 :: rat) \<noteq> 1 / 2 \<and>
   (let r = hd (masteryData march
         [saved_attempt True (Some 500) ''2024-03-01T10:00:00Z'' ''q1'',
          saved_attempt False None ''2024-03-02T10:00:00Z'' ''q1'',
          saved_attempt True (Some 900) ''2024-03-02T10:00:00Z'' ''q1'']
         (Some [pool_question ''q1'' (Some [''A.1''])]))
    in mastery_data.total_attempts r = 3 \<and> mastery_data.correct_count r = 2 \<and>
       mastery_data.incorrect_count r = 1 \<and>
       mastery_percentage r = binary64 (667 / 10) \<and>
       0 \<le> mastery_percentage r \<and> mastery_percentage r \<le> 100)"
proof -
  let ?ps = "[saved_attempt True (Some 500) ''2024-03-01T10:00:00Z'' ''q1'',
          saved_attempt False None ''2024-03-02T10:00:00Z'' ''q1'',
          saved_attempt True (Some 900) ''2024-03-02T10:00:00Z'' ''q1'']"
  let ?qs = "Some [pool_question ''q1'' (Some [''A.1''])]"
  define r where "r = hd (masteryData march ?ps ?qs)"
  have r: "r \<in> set (masteryData march ?ps ?qs)"
    unfolding r_def by (simp add: witness_defs)
  have t: "mastery_data.total_attempts r = 3" and c: "mastery_data.correct_count r = 2"
    and i: "mastery_data.incorrect_count r = 1"
    unfolding r_def by (simp_all add: witness_defs)
  have f: "frac (of_nat 2 / of_nat 3 * 1000 :: rat) \<noteq> 1 / 2"
    by (simp add: frac_def floor_numeral_divide_rat)
  have n: "Math_round (of_nat 2 / of_nat 3 * 1000) = 667"
    by (simp add: Math_round_def floor_numeral_divide_rat)
  from masteryData_invariant [of march ?ps ?qs] r
  have "(mastery_data.total_attempts r < 2 ^ 39 \<and>
      frac (of_nat (mastery_data.correct_count r)
              / of_nat (mastery_data.total_attempts r) * 1000 :: rat) \<noteq> 1 / 2 \<longrightarrow>
        mastery_data.mastery_percentage r =
          binary64 (of_int (Math_round (of_nat (mastery_data.correct_count r)
                                          / of_nat (mastery_data.total_attempts r) * 1000)) / 10)) \<and>
     0 \<le> mastery_data.mastery_percentage r \<and> mastery_data.mastery_percentage r \<le> 100"
    by blast
  then have "mastery_percentage r = binary64 (667 / 10) \<and>
      0 \<le> mastery_percentage r \<and> mastery_percentage r \<le> 100"
    unfolding t c using f n by simp
  with r t c i f show ?thesis
    unfolding r_def Let_def by simp
qed

text \<open>
  C3, as stated, fails. The codes of a question are an array, and the loop runs its body for
  every element: one attempt on a question with the codes \<open>A.1, A.1\<close> is counted twice
  for \<open>A.1\<close>.
\<close>

theorem duplicate_code_counterexample:
  "map (\<lambda>r. (mastery_data.standard_code r, mastery_data.total_attempts r,
              mastery_data.correct_count r, mastery_data.incorrect_count r))
     (masteryData (\<lambda>s. None)
        [\<lparr> correct = True, response_time_ms = Some 500,
           practice.created_at = ''2024-03-01T10:00:00Z'',
           practice.module_id = None, practice.topic_id = None, question_id = Some ''q1'',
           question_type = ''saved'', reference_question_id = None \<rparr>]
        (Some [\<lparr> question.id' = ''q1'', ny_standards_codes = Some [''A.1'', ''A.1''],
                 question.module_id = None, question.topic_id = None \<rparr>]))
   = [(''A.1'', 2, 2, 0)]"
  by (simp add: aggregation_defs)

text \<open>
  C3, amended. An attempt is counted for a code once for every occurrence of the code in the
  array of its question: the record of a code has as many attempts as the codes of the
  attempts' questions have occurrences of it, and its correct and incorrect counts and its
  averaged latencies are those of the attempts taken with that multiplicity. So an attempt
  is counted once exactly when the code occurs once in the array.
\<close>

theorem occurrences_counted:
  "\<forall>r\<in>set (masteryData newDate practiceHistory questions).
     mastery_data.total_attempts r =
       (\<Sum>p\<leftarrow>practiceHistory.
          count_list (codes_of (questionsMap questions) p) (mastery_data.standard_code r)) \<and>
     mastery_data.total_attempts r =
       length (contributions (questionsMap questions) (mastery_data.standard_code r) practiceHistory) \<and>
     mastery_data.correct_count r =
       length (filter correct
         (contributions (questionsMap questions) (mastery_data.standard_code r) practiceHistory)) \<and>
     mastery_data.incorrect_count r =
       length (filter (\<lambda>p. \<not> correct p)
         (contributions (questionsMap questions) (mastery_data.standard_code r) practiceHistory)) \<and>
     avg_response_time_ms r =
       (let ts = latencies
                   (contributions (questionsMap questions) (mastery_data.standard_code r)
                      practiceHistory)
        in if ts = [] then None
           else Some (Math_round (of_int (sum_list ts) / of_nat (length ts))))"
proof
  fix r
  assume "r \<in> set (masteryData newDate practiceHistory questions)"
  then obtain c p rest q where
    c: "mastery_data.standard_code r = c" and
    k: "contributions (questionsMap questions) c practiceHistory = p # rest" and
    r: "r = mastery_record (record_attempts newDate (new_mastery p q c) (p # rest))"
    by (rule masteryData_record)
  have len: "length (contributions qm c ps) = (\<Sum>p\<leftarrow>ps. count_list (codes_of qm p) c)" for qm ps
    by (induction ps) (simp_all add: contributions_Cons)
  have 1: "mastery_data.total_attempts r =
       (\<Sum>p\<leftarrow>practiceHistory.
          count_list (codes_of (questionsMap questions) p) (mastery_data.standard_code r))"
    unfolding c len [symmetric] k mastery_record_counts [OF r] by (rule refl)
  have 2: "mastery_data.total_attempts r =
       length (contributions (questionsMap questions) (mastery_data.standard_code r) practiceHistory)"
    unfolding c k mastery_record_counts [OF r] by (rule refl)
  have 3: "mastery_data.correct_count r =
       length (filter correct
         (contributions (questionsMap questions) (mastery_data.standard_code r) practiceHistory))"
    unfolding c k mastery_record_counts [OF r] by (rule refl)
  have 4: "mastery_data.incorrect_count r =
       length (filter (\<lambda>p. \<not> correct p)
         (contributions (questionsMap questions) (mastery_data.standard_code r) practiceHistory))"
    unfolding c k mastery_record_counts [OF r] by (rule refl)
  have 5: "avg_response_time_ms r =
       (let ts = latencies
                   (contributions (questionsMap questions) (mastery_data.standard_code r)
                      practiceHistory)
        in if ts = [] then None
           else Some (Math_round (of_int (sum_list ts) / of_nat (length ts))))"
    unfolding c k mastery_record_avg [OF r] Let_def by (rule refl)
  from 1 2 3 4 5 show "mastery_data.total_attempts r =
       (\<Sum>p\<leftarrow>practiceHistory.
          count_list (codes_of (questionsMap questions) p) (mastery_data.standard_code r)) \<and>
     mastery_data.total_attempts r =
       length (contributions (questionsMap questions) (mastery_data.standard_code r) practiceHistory) \<and>
     mastery_data.correct_count r =
       length (filter correct
         (contributions (questionsMap questions) (mastery_data.standard_code r) practiceHistory)) \<and>
     mastery_data.incorrect_count r =
       length (filter (\<lambda>p. \<not> correct p)
         (contributions (questionsMap questions) (mastery_data.standard_code r) practiceHistory)) \<and>
     avg_response_time_ms r =
       (let ts = latencies
                   (contributions (questionsMap questions) (mastery_data.standard_code r)
                      practiceHistory)
        in if ts = [] then None
           else Some (Math_round (of_int (sum_list ts) / of_nat (length ts))))"
    by (intro conjI)
qed

theorem occurrences_counted_witness:
  "map (\<lambda>r. (mastery_data.standard_code r, mastery_data.total_attempts r,
              mastery_data.correct_count r, mastery_data.incorrect_count r))
     (masteryData march
        [saved_attempt True (Some 500) ''2024-03-01T10:00:00Z'' ''q1'']
        (Some [pool_question ''q1'' (Some [''A.1'', ''A.1'', ''B.2''])]))
     = [(''A.1'', 2, 2, 0), (''B.2'', 1, 1, 0)] \<and>
   count_list
     (codes_of (questionsMap (Some [pool_question ''q1'' (Some [''A.1'', ''A.1'', ''B.2''])]))
        (saved_attempt True (Some 500) ''2024-03-01T10:00:00Z'' ''q1'')) ''A.1'' = 2"
  using occurrences_counted [of march
        "[saved_attempt True (Some 500) ''2024-03-01T10:00:00Z'' ''q1'']"
        "Some [pool_question ''q1'' (Some [''A.1'', ''A.1'', ''B.2''])]"]
  by (simp add: witness_defs)

text \<open>
  C4. When the \<^verbatim>\<open>created_at\<close> of every attempt that contributes to a record's code is
  well-formed, the record's \<^verbatim>\<open>last_attempted\<close> is the \<^verbatim>\<open>created_at\<close> of one of these attempts,
  and its instant is at least the instant of each of them: the maximum, compared as parsed
  instants.
\<close>

theorem last_attempted_is_latest:
  assumes r: "r \<in> set (masteryData newDate practiceHistory questions)"
    and wf: "\<forall>p\<in>set practiceHistory.
        mastery_data.standard_code r \<in> set (codes_of (questionsMap questions) p) \<longrightarrow>
        newDate (practice.created_at p) \<noteq> None"
  shows "(\<exists>p\<in>set practiceHistory.
            mastery_data.standard_code r \<in> set (codes_of (questionsMap questions) p) \<and>
            mastery_data.last_attempted r = practice.created_at p) \<and>
         (\<exists>t. newDate (mastery_data.last_attempted r) = Some t \<and>
            (\<forall>p\<in>set practiceHistory.
               mastery_data.standard_code r \<in> set (codes_of (questionsMap questions) p) \<longrightarrow>
               (\<exists>u. newDate (practice.created_at p) = Some u \<and> u \<le> t)))"
proof -
  from r obtain c p rest q where
    c: "mastery_data.standard_code r = c" and
    k: "contributions (questionsMap questions) c practiceHistory = p # rest" and
    e: "r = mastery_record (record_attempts newDate (new_mastery p q c) (p # rest))"
    by (rule masteryData_record)
  define m where "m = record_attempts newDate (new_mastery p q c) (p # rest)"
  have la: "mastery_data.last_attempted r = mastery.last_attempted m"
    unfolding e m_def by (simp add: mastery_record_def)
  have S: "set (p # rest) = {a \<in> set practiceHistory. c \<in> set (codes_of (questionsMap questions) a)}"
    unfolding k [symmetric] by (rule set_contributions)
  have init: "mastery.last_attempted (new_mastery p q c) = practice.created_at p"
    by (simp add: new_mastery_def)
  have "mastery.last_attempted m \<in> insert (practice.created_at p) (practice.created_at ` set (p # rest))"
    unfolding m_def using last_attempted_record_attempts_in [of newDate "new_mastery p q c" "p # rest"]
    by (simp only: init)
  then have "mastery.last_attempted m \<in> practice.created_at ` set (p # rest)"
    by auto
  then have 1: "\<exists>a\<in>set practiceHistory. c \<in> set (codes_of (questionsMap questions) a) \<and>
      mastery.last_attempted m = practice.created_at a"
    unfolding S by blast
  have all: "\<forall>a\<in>set (p # rest). newDate (practice.created_at a) \<noteq> None"
    unfolding S using wf c by blast
  then obtain t0 where t0: "newDate (mastery.last_attempted (new_mastery p q c)) = Some t0"
    unfolding init by auto
  from last_attempted_record_attempts_max [OF t0 all]
  obtain t where t: "newDate (mastery.last_attempted m) = Some t"
    "\<forall>a\<in>set (p # rest). \<forall>u. newDate (practice.created_at a) = Some u \<longrightarrow> u \<le> t"
    unfolding m_def by blast
  have "\<forall>a\<in>set practiceHistory. c \<in> set (codes_of (questionsMap questions) a) \<longrightarrow>
      (\<exists>u. newDate (practice.created_at a) = Some u \<and> u \<le> t)"
  proof (intro ballI impI)
    fix a
    assume "a \<in> set practiceHistory" "c \<in> set (codes_of (questionsMap questions) a)"
    then have a: "a \<in> set (p # rest)" unfolding S by simp
    with all obtain u where u: "newDate (practice.created_at a) = Some u" by auto
    with t(2) a have "u \<le> t" by blast
    with u show "\<exists>u. newDate (practice.created_at a) = Some u \<and> u \<le> t" by simp
  qed
  with t(1) have 2: "\<exists>t. newDate (mastery.last_attempted m) = Some t \<and>
      (\<forall>a\<in>set practiceHistory. c \<in> set (codes_of (questionsMap questions) a) \<longrightarrow>
        (\<exists>u. newDate (practice.created_at a) = Some u \<and> u \<le> t))"
    by blast
  from 1 2 show ?thesis unfolding c la by (rule conjI)
qed

theorem last_attempted_is_latest_witness:
  "hd (masteryData march
         [saved_attempt True None ''2024-03-01T10:00:00Z'' ''q1'',
          saved_attempt False None ''2024-03-02T10:00:00Z'' ''q1'',
          saved_attempt True None ''2024-03-01T10:00:00Z'' ''q1'']
         (Some [pool_question ''q1'' (Some [''A.1''])]))
     \<in> set (masteryData march
         [saved_attempt True None ''2024-03-01T10:00:00Z'' ''q1'',
          saved_attempt False None ''2024-03-02T10:00:00Z'' ''q1'',
          saved_attempt True None ''2024-03-01T10:00:00Z'' ''q1'']
         (Some [pool_question ''q1'' (Some [''A.1''])])) \<and>
   march ''2024-03-01T10:00:00Z'' = Some 1709287200000 \<and>
   march ''2024-03-02T10:00:00Z'' = Some 1709373600000 \<and>
   mastery_data.last_attempted (hd (masteryData march
         [saved_attempt True None ''2024-03-01T10:00:00Z'' ''q1'',
          saved_attempt False None ''2024-03-02T10:00:00Z'' ''q1'',
          saved_attempt True None ''2024-03-01T10:00:00Z'' ''q1'']
         (Some [pool_question ''q1'' (Some [''A.1''])]))) = ''2024-03-02T10:00:00Z''"
proof -
  let ?ps = "[saved_attempt True None ''2024-03-01T10:00:00Z'' ''q1'',
          saved_attempt False None ''2024-03-02T10:00:00Z'' ''q1'',
          saved_attempt True None ''2024-03-01T10:00:00Z'' ''q1'']"
  let ?qs = "Some [pool_question ''q1'' (Some [''A.1''])]"
  have r: "hd (masteryData march ?ps ?qs) \<in> set (masteryData march ?ps ?qs)"
    by (simp add: witness_defs)
  have wf: "\<forall>p\<in>set ?ps.
      mastery_data.standard_code (hd (masteryData march ?ps ?qs))
        \<in> set (codes_of (questionsMap ?qs) p) \<longrightarrow>
      march (practice.created_at p) \<noteq> None"
    by (simp add: witness_defs)
  from last_attempted_is_latest [OF r wf] r show ?thesis
    by (simp add: witness_defs)
qed

text \<open>
  C5, as stated, fails for the latency 0. The guard \<^verbatim>\<open>if (practice.response_time_ms)\<close>
  tests truthiness, and 0 is falsy: of the latencies 0 and 700 only 700 is pushed, and the
  average is 700, not 350.
\<close>

theorem zero_latency_counterexample:
  "map (\<lambda>e. mastery.response_times (snd e))
     (masteryMap (\<lambda>s. None)
        [\<lparr> correct = True, response_time_ms = Some 0,
           practice.created_at = ''2024-03-01T10:00:00Z'',
           practice.module_id = None, practice.topic_id = None, question_id = Some ''q1'',
           question_type = ''saved'', reference_question_id = None \<rparr>,
         \<lparr> correct = True, response_time_ms = Some 700,
           practice.created_at = ''2024-03-02T10:00:00Z'',
           practice.module_id = None, practice.topic_id = None, question_id = Some ''q1'',
           question_type = ''saved'', reference_question_id = None \<rparr>]
        (Some [\<lparr> question.id' = ''q1'', ny_standards_codes = Some [''A.1''],
                 question.module_id = None, question.topic_id = None \<rparr>])) = [[700]] \<and>
   map avg_response_time_ms
     (masteryData (\<lambda>s. None)
        [\<lparr> correct = True, response_time_ms = Some 0,
           practice.created_at = ''2024-03-01T10:00:00Z'',
           practice.module_id = None, practice.topic_id = None, question_id = Some ''q1'',
           question_type = ''saved'', reference_question_id = None \<rparr>,
         \<lparr> correct = True, response_time_ms = Some 700,
           practice.created_at = ''2024-03-02T10:00:00Z'',
           practice.module_id = None, practice.topic_id = None, question_id = Some ''q1'',
           question_type = ''saved'', reference_question_id = None \<rparr>]
        (Some [\<lparr> question.id' = ''q1'', ny_standards_codes = Some [''A.1''],
                 question.module_id = None, question.topic_id = None \<rparr>])) = [Some 700]"
  by (simp add: aggregation_defs)

text \<open>
  C5, amended. The latency of an attempt is appended, for each code the attempt contributes
  to, when it is present and not 0. The average of a record is the mean of the latencies
  collected for its code, rounded to the nearest integer, and is absent exactly when none
  was collected.
\<close>

theorem truthy_latencies_averaged:
  "(\<forall>e\<in>set (masteryMap newDate practiceHistory questions).
      mastery.response_times (snd e) =
        latencies (contributions (questionsMap questions) (fst e) practiceHistory)) \<and>
   (\<forall>r\<in>set (masteryData newDate practiceHistory questions).
      avg_response_time_ms r =
        (let ts = latencies (contributions (questionsMap questions)
                               (mastery_data.standard_code r) practiceHistory)
         in if ts = [] then None
            else Some (Math_round (of_int (sum_list ts) / of_nat (length ts)))))"
proof (intro conjI ballI)
  fix e
  assume "e \<in> set (masteryMap newDate practiceHistory questions)"
  then show "mastery.response_times (snd e) =
        latencies (contributions (questionsMap questions) (fst e) practiceHistory)"
    by (rule response_times_masteryMap)
next
  fix r
  assume "r \<in> set (masteryData newDate practiceHistory questions)"
  then obtain c p rest q where
    c: "mastery_data.standard_code r = c" and
    k: "contributions (questionsMap questions) c practiceHistory = p # rest" and
    r: "r = mastery_record (record_attempts newDate (new_mastery p q c) (p # rest))"
    by (rule masteryData_record)
  show "avg_response_time_ms r =
        (let ts = latencies (contributions (questionsMap questions)
                               (mastery_data.standard_code r) practiceHistory)
         in if ts = [] then None
            else Some (Math_round (of_int (sum_list ts) / of_nat (length ts))))"
    unfolding c k mastery_record_avg [OF r] Let_def by (rule refl)
qed

theorem truthy_latencies_averaged_witness:
  "map avg_response_time_ms
     (masteryData march
        [saved_attempt True (Some 0) ''2024-03-01T10:00:00Z'' ''q1'',
         saved_attempt True (Some 400) ''2024-03-01T10:00:00Z'' ''q1'',
         saved_attempt False None ''2024-03-02T10:00:00Z'' ''q1'',
         saved_attempt False (Some 701) ''2024-03-02T10:00:00Z'' ''q1'']
        (Some [pool_question ''q1'' (Some [''A.1''])])) = [Some 551] \<and>
   latencies (contributions (questionsMap (Some [pool_question ''q1'' (Some [''A.1''])])) ''A.1''
        [saved_attempt True (Some 0) ''2024-03-01T10:00:00Z'' ''q1'',
         saved_attempt True (Some 400) ''2024-03-01T10:00:00Z'' ''q1'',
         saved_attempt False None ''2024-03-02T10:00:00Z'' ''q1'',
         saved_attempt False (Some 701) ''2024-03-02T10:00:00Z'' ''q1'']) = [400, 701]"
  using truthy_latencies_averaged [of march
        "[saved_attempt True (Some 0) ''2024-03-01T10:00:00Z'' ''q1'',
         saved_attempt True (Some 400) ''2024-03-01T10:00:00Z'' ''q1'',
         saved_attempt False None ''2024-03-02T10:00:00Z'' ''q1'',
         saved_attempt False (Some 701) ''2024-03-02T10:00:00Z'' ''q1'']"
        "Some [pool_question ''q1'' (Some [''A.1''])]"]
  by (simp add: witness_defs)

text \<open>
  C6, at the input where the route departs from it: a saved attempt on \<open>q1\<close> and an
  attempt of type \<open>review\<close> that refers to \<open>q1\<close>. The route asks the catalog for the ids of
  the \<open>saved\<close> and \<open>on_the_fly\<close> attempts only, but its loop tests \<^verbatim>\<open>=== 'saved'\<close> alone
  and takes \<^verbatim>\<open>reference_question_id\<close> for every other type: the \<open>review\<close> attempt is counted,
  \<open>A.1\<close> has 2 attempts, where the history without it has 1. Alone, the \<open>review\<close> attempt
  fetches no question and gives no record.
\<close>

theorem other_question_type_contributes:
  "practice_history_mastery (store [pool_row ''q1'' (Codes_array [''A.1''])]) march
     [saved_attempt True (Some 500) ''2024-03-01T10:00:00Z'' ''q1'',
      \<lparr> correct = False, response_time_ms = Some 700,
        practice.created_at = ''2024-03-02T10:00:00Z'',
        practice.module_id = None, practice.topic_id = None, question_id = None,
        question_type = ''review'', reference_question_id = Some ''q1'' \<rparr>]
   = Success
       [\<lparr> mastery_data.standard_code = ''A.1'', mastery_data.module_id = Some ''m1'',
          mastery_data.topic_id = Some ''t1'', mastery_data.total_attempts = 2,
          mastery_data.correct_count = 1, mastery_data.incorrect_count = 1,
          mastery_percentage = 50, avg_response_time_ms = Some 600,
          mastery_data.last_attempted = ''2024-03-02T10:00:00Z'' \<rparr>] \<and>
   practice_history_mastery (store [pool_row ''q1'' (Codes_array [''A.1''])]) march
     [saved_attempt True (Some 500) ''2024-03-01T10:00:00Z'' ''q1'']
   = Success
       [\<lparr> mastery_data.standard_code = ''A.1'', mastery_data.module_id = Some ''m1'',
          mastery_data.topic_id = Some ''t1'', mastery_data.total_attempts = 1,
          mastery_data.correct_count = 1, mastery_data.incorrect_count = 0,
          mastery_percentage = 100, avg_response_time_ms = Some 500,
          mastery_data.last_attempted = ''2024-03-01T10:00:00Z'' \<rparr>] \<and>
   practice_history_mastery (store [pool_row ''q1'' (Codes_array [''A.1''])]) march
     [\<lparr> correct = False, response_time_ms = Some 700,
        practice.created_at = ''2024-03-02T10:00:00Z'',
        practice.module_id = None, practice.topic_id = None, question_id = None,
        question_type = ''review'', reference_question_id = Some ''q1'' \<rparr>]
   = Success []"
  by (simp add: route_defs witness_defs doubles_of_one)

text \<open>
  C7, as stated, fails. No statement of the aggregation raises on a malformed timestamp:
  \<^verbatim>\<open>new Date\<close> gives an invalid date, the comparison is false, and the route answers with
  the records, here with the malformed string as \<^verbatim>\<open>last_attempted\<close>.
\<close>

theorem malformed_created_at_counterexample:
  "masteryData (\<lambda>s. if s = ''2024-03-01T10:00:00Z'' then Some 1709287200000 else None)
        [\<lparr> correct = True, response_time_ms = Some 500,
           practice.created_at = ''not a date'',
           practice.module_id = None, practice.topic_id = None, question_id = Some ''q1'',
           question_type = ''saved'', reference_question_id = None \<rparr>,
         \<lparr> correct = False, response_time_ms = Some 700,
           practice.created_at = ''2024-03-01T10:00:00Z'',
           practice.module_id = None, practice.topic_id = None, question_id = Some ''q1'',
           question_type = ''saved'', reference_question_id = None \<rparr>]
        (Some [\<lparr> question.id' = ''q1'', ny_standards_codes = Some [''A.1''],
                 question.module_id = None, question.topic_id = None \<rparr>])
   = [\<lparr> mastery_data.standard_code = ''A.1'', mastery_data.module_id = None,
         mastery_data.topic_id = None, mastery_data.total_attempts = 2,
         mastery_data.correct_count = 1, mastery_data.incorrect_count = 1,
         mastery_percentage = 50, avg_response_time_ms = Some 600,
         mastery_data.last_attempted = ''not a date'' \<rparr>]"
  by (simp add: aggregation_defs)

text \<open>
  C7, amended. The aggregation raises exactly when an attempt resolves to a row whose
  \<^verbatim>\<open>ny_standards_codes\<close> is truthy and not an array. On rows whose \<^verbatim>\<open>ny_standards_codes\<close> is
  an array or null it has no failure mode, whatever the timestamps are: it returns the
  records of the aggregation. A code whose first contributing attempt has a malformed
  \<^verbatim>\<open>created_at\<close> has its record, which counts every contribution and keeps that malformed
  string as \<^verbatim>\<open>last_attempted\<close>.
\<close>

theorem aggregation_failure_modes:
  "masteryData_try newDate practiceHistory rows =
     (if \<exists>p\<in>set practiceHistory. raises (rowsMap rows) p then Inl TypeError
      else Inr (masteryData newDate practiceHistory (map_option (map typed_question) rows))) \<and>
   ((\<forall>q\<in>set (case rows of None \<Rightarrow> [] | Some qs \<Rightarrow> qs).
        \<forall>s. question_row.ny_standards_codes q \<noteq> Codes_text s) \<longrightarrow>
      masteryData_try newDate practiceHistory rows =
        Inr (masteryData newDate practiceHistory (map_option (map typed_question) rows))) \<and>
   (contributions (questionsMap (map_option (map typed_question) rows)) standardCode
        practiceHistory = p # rest \<and>
    newDate (practice.created_at p) = None \<longrightarrow>
      (\<exists>r\<in>set (masteryData newDate practiceHistory (map_option (map typed_question) rows)).
         mastery_data.standard_code r = standardCode \<and>
         mastery_data.total_attempts r = Suc (length rest) \<and>
         mastery_data.last_attempted r = practice.created_at p))"
proof (intro conjI impI)
  show "masteryData_try newDate practiceHistory rows =
     (if \<exists>p\<in>set practiceHistory. raises (rowsMap rows) p then Inl TypeError
      else Inr (masteryData newDate practiceHistory (map_option (map typed_question) rows)))"
    by (rule masteryData_try_eq)
next
  assume "\<forall>q\<in>set (case rows of None \<Rightarrow> [] | Some qs \<Rightarrow> qs).
        \<forall>s. question_row.ny_standards_codes q \<noteq> Codes_text s"
  then have "\<not> (\<exists>p\<in>set practiceHistory. raises (rowsMap rows) p)"
    using raises_row by blast
  then show "masteryData_try newDate practiceHistory rows =
        Inr (masteryData newDate practiceHistory (map_option (map typed_question) rows))"
    by (simp add: masteryData_try_eq)
next
  define qs where "qs = map_option (map typed_question) rows"
  assume a: "contributions (questionsMap (map_option (map typed_question) rows)) standardCode
        practiceHistory = p # rest \<and> newDate (practice.created_at p) = None"
  define r where "r = mastery_record (record_attempts newDate
      (new_mastery p (the (question_of (questionsMap qs) p)) standardCode) (p # rest))"
  from a have k: "contributions (questionsMap qs) standardCode practiceHistory = p # rest"
    and n: "newDate (practice.created_at p) = None"
    unfolding qs_def by simp_all
  have "contributions (questionsMap qs) standardCode practiceHistory \<noteq> []"
    unfolding k by simp
  have g: "Map_get (masteryMap newDate practiceHistory qs) standardCode =
      Some (record_attempts newDate
        (new_mastery p (the (question_of (questionsMap qs) p)) standardCode) (p # rest))"
    unfolding get_masteryMap k by simp
  then have "mastery.standard_code (record_attempts newDate
        (new_mastery p (the (question_of (questionsMap qs) p)) standardCode) (p # rest))
      = standardCode"
    by (rule standard_code_masteryMap)
  then have sc: "mastery_data.standard_code r = standardCode"
    by (simp add: r_def mastery_record_def)
  have m: "r \<in> set (masteryData newDate practiceHistory qs)"
    unfolding in_masteryData sc using g unfolding r_def by blast
  have t: "mastery_data.total_attempts r = Suc (length rest)"
    using mastery_record_counts(1) [OF r_def] by simp
  have "mastery.last_attempted (record_attempts newDate
        (new_mastery p (the (question_of (questionsMap qs) p)) standardCode) (p # rest))
      = practice.created_at p"
    using last_attempted_record_attempts_invalid [of newDate
        "new_mastery p (the (question_of (questionsMap qs) p)) standardCode" "p # rest"] n
    by (simp add: new_mastery_def)
  then have l: "mastery_data.last_attempted r = practice.created_at p"
    by (simp add: r_def mastery_record_def)
  from m sc t l show "\<exists>r\<in>set (masteryData newDate practiceHistory
        (map_option (map typed_question) rows)).
         mastery_data.standard_code r = standardCode \<and>
         mastery_data.total_attempts r = Suc (length rest) \<and>
         mastery_data.last_attempted r = practice.created_at p"
    unfolding qs_def by blast
qed

theorem aggregation_failure_modes_witness:
  "question_row.ny_standards_codes (pool_row ''q1'' (Codes_array [''A.1''])) = Codes_array [''A.1''] \<and>
   march (practice.created_at (saved_attempt True (Some 500) ''not a date'' ''q1'')) = None \<and>
   masteryData_try march
     [saved_attempt True (Some 500) ''not a date'' ''q1'',
      saved_attempt False (Some 700) ''2024-03-01T10:00:00Z'' ''q1'']
     (Some [pool_row ''q1'' (Codes_array [''A.1''])])
   = Inr [\<lparr> mastery_data.standard_code = ''A.1'', mastery_data.module_id = Some ''m1'',
            mastery_data.topic_id = Some ''t1'', mastery_data.total_attempts = 2,
            mastery_data.correct_count = 1, mastery_data.incorrect_count = 1,
            mastery_percentage = 50, avg_response_time_ms = Some 600,
            mastery_data.last_attempted = ''not a date'' \<rparr>] \<and>
   masteryData_try march
     [saved_attempt True (Some 500) ''not a date'' ''q1'',
      saved_attempt False (Some 700) ''2024-03-01T10:00:00Z'' ''q1'']
     (Some [pool_row ''q1'' (Codes_text ''A.1'')])
   = Inl TypeError"
proof -
  let ?ps = "[saved_attempt True (Some 500) ''not a date'' ''q1'',
      saved_attempt False (Some 700) ''2024-03-01T10:00:00Z'' ''q1'']"
  let ?row = "pool_row ''q1'' (Codes_array [''A.1''])"
  let ?text = "pool_row ''q1'' (Codes_text ''A.1'')"
  have typed: "\<forall>q\<in>set (case Some [?row] of None \<Rightarrow> [] | Some qs \<Rightarrow> qs).
      \<forall>s. question_row.ny_standards_codes q \<noteq> Codes_text s"
    by (simp add: pool_row_def)
  have 1: "masteryData_try march ?ps (Some [?row]) =
      Inr (masteryData march ?ps (map_option (map typed_question) (Some [?row])))"
    using aggregation_failure_modes [of march ?ps "Some [?row]"] typed by blast
  have r: "\<exists>p\<in>set ?ps. raises (rowsMap (Some [?text])) p"
    by (simp add: route_defs witness_defs)
  have 2: "masteryData_try march ?ps (Some [?text]) = Inl TypeError"
    using aggregation_failure_modes [of march ?ps "Some [?text]"] r by simp
  show ?thesis
    unfolding 1 2 by (simp add: route_defs witness_defs)
qed

text \<open>
  C10. The codes of the output records are pairwise distinct, and they are the codes of the
  questions of the attempts that are not skipped: one record for each code met.
\<close>

theorem one_record_per_standard_code:
  "distinct (map mastery_data.standard_code (masteryData newDate practiceHistory questions)) \<and>
   set (map mastery_data.standard_code (masteryData newDate practiceHistory questions)) =
     (\<Union>p\<in>set practiceHistory. set (codes_of (questionsMap questions) p))"
  unfolding standard_codes_masteryData
  using distinct_masteryMap [of newDate practiceHistory questions]
    keyset_masteryMap [of newDate practiceHistory questions]
  by simp

section \<open>Relation enrichment\<close>

text \<open>
  C8. Enriching no standard gives no record. The batched variant answers one record for
  each standard, and where the response matches no row with the standard's \<^verbatim>\<open>module_id\<close>
  (\<^verbatim>\<open>topic_id\<close>) the \<^verbatim>\<open>module\<close> (\<^verbatim>\<open>topic\<close>) of its record is null. The single-record variant
  gives null where its fetch returns no row. Both are total: a missing id is no error.
\<close>

theorem enrichment_null_on_miss:
  "enrichStandardsWithRelations modules_in topics_in [] = [] \<and>
   length (enrichStandardsWithRelations modules_in topics_in standards) = length standards \<and>
   (\<forall>i<length standards.
      (no_match module_row.id' (modules_in (uniq (map standard_row.module_id standards)))
           (standard_row.module_id (standards ! i)) \<longrightarrow>
         module (enrichStandardsWithRelations modules_in topics_in standards ! i) = None) \<and>
      (no_match topic_row.id' (topics_in (uniq (map standard_row.topic_id standards)))
           (standard_row.topic_id (standards ! i)) \<longrightarrow>
         topic (enrichStandardsWithRelations modules_in topics_in standards ! i) = None)) \<and>
   (module_single (standard_row.module_id standard) = None \<longrightarrow>
      module (enrichedStandard module_single topic_single standard) = None) \<and>
   (topic_single (standard_row.topic_id standard) = None \<longrightarrow>
      topic (enrichedStandard module_single topic_single standard) = None)"
proof (intro conjI allI impI)
  show "enrichStandardsWithRelations modules_in topics_in [] = []"
    by (simp add: enrichStandardsWithRelations_def)
  show "length (enrichStandardsWithRelations modules_in topics_in standards) = length standards"
    by (simp add: enrichStandardsWithRelations_def Let_def)
next
  fix i
  assume i: "i < length standards"
    and "no_match module_row.id' (modules_in (uniq (map standard_row.module_id standards)))
           (standard_row.module_id (standards ! i))"
  then show "module (enrichStandardsWithRelations modules_in topics_in standards ! i) = None"
    by (simp add: enrichStandardsWithRelations_def Let_def get_or_null_miss)
next
  fix i
  assume i: "i < length standards"
    and "no_match topic_row.id' (topics_in (uniq (map standard_row.topic_id standards)))
           (standard_row.topic_id (standards ! i))"
  then show "topic (enrichStandardsWithRelations modules_in topics_in standards ! i) = None"
    by (simp add: enrichStandardsWithRelations_def Let_def get_or_null_miss)
next
  assume "module_single (standard_row.module_id standard) = None"
  then show "module (enrichedStandard module_single topic_single standard) = None"
    by (simp add: enrichedStandard_def)
next
  assume "topic_single (standard_row.topic_id standard) = None"
  then show "topic (enrichedStandard module_single topic_single standard) = None"
    by (simp add: enrichedStandard_def)
qed

theorem enrichment_null_on_miss_witness:
  "no_match module_row.id'
     (Some [\<lparr> module_row.id' = ''m1'', module_row.name = ''Fractions'',
               module_row.description = ''Grade 4'', display_order = 1 \<rparr>])
     (Some ''m7'') \<and>
   map (\<lambda>e. (enriched_standard.standard_code e, module e, topic e))
     (enrichStandardsWithRelations
        (\<lambda>ids. Some (filter (\<lambda>m. Some (module_row.id' m) \<in> set ids)
           [\<lparr> module_row.id' = ''m1'', module_row.name = ''Fractions'',
               module_row.description = ''Grade 4'', display_order = 1 \<rparr>]))
        (\<lambda>ids. None)
        [\<lparr> standard_row.id' = ''s1'', standard_row.standard_code = ''A.1'',
            standard_row.description = ''first'', standard_row.module_id = Some ''m1'',
            standard_row.topic_id = Some ''t1'', standard_row.created_at = ''2024-03-01T10:00:00Z'' \<rparr>,
         \<lparr> standard_row.id' = ''s2'', standard_row.standard_code = ''A.2'',
            standard_row.description = ''second'', standard_row.module_id = Some ''m7'',
            standard_row.topic_id = None, standard_row.created_at = ''2024-03-02T10:00:00Z'' \<rparr>])
   = [(''A.1'', Some \<lparr> module_row.id' = ''m1'', module_row.name = ''Fractions'',
               module_row.description = ''Grade 4'', display_order = 1 \<rparr>, None),
      (''A.2'', None, None)] \<and>
   module (enrichedStandard (\<lambda>i. None) (\<lambda>i. None)
        \<lparr> standard_row.id' = ''s2'', standard_row.standard_code = ''A.2'',
            standard_row.description = ''second'', standard_row.module_id = Some ''m7'',
            standard_row.topic_id = None, standard_row.created_at = ''2024-03-02T10:00:00Z'' \<rparr>)
     = None"
  using enrichment_null_on_miss [of
        "\<lambda>ids. Some (filter (\<lambda>m. Some (module_row.id' m) \<in> set ids)
           [\<lparr> module_row.id' = ''m1'', module_row.name = ''Fractions'',
               module_row.description = ''Grade 4'', display_order = 1 \<rparr>])"
        "\<lambda>ids. None"
        "[\<lparr> standard_row.id' = ''s1'', standard_row.standard_code = ''A.1'',
            standard_row.description = ''first'', standard_row.module_id = Some ''m1'',
            standard_row.topic_id = Some ''t1'', standard_row.created_at = ''2024-03-01T10:00:00Z'' \<rparr>,
         \<lparr> standard_row.id' = ''s2'', standard_row.standard_code = ''A.2'',
            standard_row.description = ''second'', standard_row.module_id = Some ''m7'',
            standard_row.topic_id = None, standard_row.created_at = ''2024-03-02T10:00:00Z'' \<rparr>]"
        "\<lambda>i. None"
        "\<lparr> standard_row.id' = ''s2'', standard_row.standard_code = ''A.2'',
            standard_row.description = ''second'', standard_row.module_id = Some ''m7'',
            standard_row.topic_id = None, standard_row.created_at = ''2024-03-02T10:00:00Z'' \<rparr>"
        "\<lambda>i. None"]
  by (simp add: enrichStandardsWithRelations_def enrichedStandard_def no_match_def uniq_def
        Map_new_def Map_get_def get_or_null_def)


section \<open>Server configuration\<close>

text \<open>
  C9, as stated, fails. The origin passed to \<^verbatim>\<open>cors\<close> is a string literal: an environment
  that sets the port and the prefix and names \<open>https://dashboard.example.org\<close> as the origin
  leaves the allowed origin another one.
\<close>

theorem cors_origin_counterexample:
  "cors_origin (server_config deployment_env) \<noteq> ''https://dashboard.example.org'' \<and>
   map deployment_env
     [''CORS_ORIGIN'', ''CORS_ALLOWED_ORIGIN'', ''ALLOWED_ORIGIN'', ''ALLOWED_ORIGINS'', ''ORIGIN'']
   = replicate 5 (Some ''https://dashboard.example.org'')"
  by (simp add: server_config_def deployment_env_def numeral_eq_Suc)

text \<open>
  C9, amended. The listen port and the path prefix are the values of \<^verbatim>\<open>PORT\<close> and
  \<^verbatim>\<open>API_PREFIX\<close> when these are set and not empty, and 3000 and \<open>/api/v1\<close> otherwise; the
  allowed origin is not taken from the environment: it is \<open>http://localhost:8080\<close> in every
  environment.
\<close>

theorem cors_origin_fixed:
  "cors_origin (server_config env) = ''http://localhost:8080'' \<and>
   (\<forall>v. env ''PORT'' = Some v \<and> v \<noteq> [] \<longrightarrow> PORT (server_config env) = Inl v) \<and>
   (env ''PORT'' = None \<or> env ''PORT'' = Some [] \<longrightarrow> PORT (server_config env) = Inr 3000) \<and>
   (\<forall>v. env ''API_PREFIX'' = Some v \<and> v \<noteq> [] \<longrightarrow> API_PREFIX (server_config env) = v) \<and>
   (env ''API_PREFIX'' = None \<or> env ''API_PREFIX'' = Some [] \<longrightarrow>
      API_PREFIX (server_config env) = ''/api/v1'')"
  by (auto simp: server_config_def truthy_string_def)

theorem cors_origin_fixed_witness:
  "deployment_env ''PORT'' = Some ''4000'' \<and> deployment_env ''API_PREFIX'' = Some ''/hub'' \<and>
   server_config deployment_env
     = \<lparr> PORT = Inl ''4000'', API_PREFIX = ''/hub'', cors_origin = ''http://localhost:8080'',
         cors_credentials = True \<rparr> \<and>
   Map.empty ''PORT'' = (None :: string option) \<and>
   server_config Map.empty
     = \<lparr> PORT = Inr 3000, API_PREFIX = ''/api/v1'', cors_origin = ''http://localhost:8080'',
         cors_credentials = True \<rparr>"
proof -
  have p: "deployment_env ''PORT'' = Some ''4000''"
    and a: "deployment_env ''API_PREFIX'' = Some ''/hub''"
    by (simp_all add: deployment_env_def)
  have c: "cors_credentials (server_config env) = True" for env
    by (simp add: server_config_def)
  from cors_origin_fixed [of deployment_env] p a
  have 1: "cors_origin (server_config deployment_env) = ''http://localhost:8080''"
    "PORT (server_config deployment_env) = Inl ''4000''"
    "API_PREFIX (server_config deployment_env) = ''/hub''"
    by simp_all
  from cors_origin_fixed [of Map.empty]
  have 2: "cors_origin (server_config Map.empty) = ''http://localhost:8080''"
    "PORT (server_config Map.empty) = Inr 3000"
    "API_PREFIX (server_config Map.empty) = ''/api/v1''"
    by simp_all
  have "server_config deployment_env
     = \<lparr> PORT = Inl ''4000'', API_PREFIX = ''/hub'', cors_origin = ''http://localhost:8080'',
         cors_credentials = True \<rparr>"
    using 1 c [of deployment_env] by (cases "server_config deployment_env") simp
  moreover have "server_config Map.empty
     = \<lparr> PORT = Inr 3000, API_PREFIX = ''/api/v1'', cors_origin = ''http://localhost:8080'',
         cors_credentials = True \<rparr>"
    using 2 c [of Map.empty] by (cases "server_config Map.empty") simp
  ultimately show ?thesis using p a by simp
qed

end
